theory Spec2Isabelle
  imports Main "HOL-Library.Word" "HOL-Library.Sublist"
begin

section \<open>Data model of \<^verbatim>\<open>provisioners/step.go\<close>\<close>

type_synonym byte = "8 word"
type_synonym bytes = "byte list"

text \<open>
  A Go byte slice that may be \<^verbatim>\<open>nil\<close>: \<open>None\<close> is the nil slice, \<open>Some bs\<close> a
  non-nil slice holding \<open>bs\<close>.
\<close>

type_synonym slice = "bytes option"

text \<open>
  A Go \<^verbatim>\<open>error\<close> value, identified by the text its \<^verbatim>\<open>Error()\<close> method gives;
  \<^verbatim>\<open>fmt.Errorf("...: %v", err)\<close> builds a new one around that text.
\<close>

datatype error = Error (message: string)

text \<open>
  What a call does: it returns a value, returns an error, or panics (the nil
  dereference of \<^verbatim>\<open>cert.Raw\<close> in \<^verbatim>\<open>encodeX509\<close>).
\<close>

datatype 'a result = Ok 'a | Err error | Panic

subsection \<open>Standard library types\<close>

type_synonym net_IP = bytes
type_synonym time_Duration = "64 word"

record url_URL =
  Scheme :: string
  Host :: string
  Path :: string

record pem_Block =
  Type :: string
  Headers :: "(string \<times> string) list"
  Bytes :: bytes

record x509_Certificate =
  Raw :: bytes

record pkix_Name =
  CommonName :: string

record x509_CertificateRequest =
  Signature :: bytes
  Subject :: pkix_Name
  DNSNames :: "string list"
  EmailAddresses :: "string list"
  IPAddresses :: "net_IP list"
  URIs :: "url_URL list"

subsection \<open>Types of the CA client (\<^verbatim>\<open>capi\<close>, \<^verbatim>\<open>ca\<close>)\<close>

text \<open>
  \<^verbatim>\<open>capi.Certificate\<close> and \<^verbatim>\<open>capi.CertificateRequest\<close> embed a pointer, which may be
  nil. \<^verbatim>\<open>capi.TimeDuration\<close> is opaque to this package: it is the type parameter
  \<open>'td\<close>, reached only through its zero value and \<^verbatim>\<open>SetDuration\<close>.
\<close>

record capi_Certificate =
  Certificate :: "x509_Certificate option"

record capi_CertificateRequest =
  CertificateRequest :: "x509_CertificateRequest option"

record RootsResponse =
  Certificates :: "capi_Certificate list"

record SignResponse =
  ServerPEM :: capi_Certificate
  CaPEM :: capi_Certificate

record VersionResponse =
  Version :: string
  RequireClientAuthentication :: bool

record 'td SignRequest =
  CsrPEM :: capi_CertificateRequest
  OTT :: string
  NotAfter :: 'td

datatype ca_ClientOption = WithCABundle bytes

datatype http_Transport = Transport nat

datatype crypto_PrivateKey = PrivateKey nat

text \<open>
  A \<^verbatim>\<open>ca.Provisioner\<close> is opaque to the package but for the transport of its client,
  which \<^verbatim>\<open>SetTransport\<close> replaces; \<open>handle\<close> stands for everything else in it.
\<close>

record ca_Provisioner =
  handle :: nat
  Client_transport :: http_Transport

subsection \<open>Types of the callers (\<^verbatim>\<open>certmanager\<close>, \<^verbatim>\<open>api\<close>, \<^verbatim>\<open>types\<close>)\<close>

record metav1_Duration =
  Duration :: time_Duration

record CertificateRequestSpec =
  spec_Duration :: "metav1_Duration option"
  Request :: bytes

record certmanager_CertificateRequest =
  cr_Spec :: CertificateRequestSpec

record StepProvisioner =
  prov_Name :: string
  KeyID :: string

record StepIssuerSpec =
  URL :: string
  CABundle :: bytes
  Provisioner :: StepProvisioner

record api_StepIssuer =
  Name :: string
  Namespace :: string
  Spec :: StepIssuerSpec

record NamespacedName =
  nn_Namespace :: string
  nn_Name :: string

subsection \<open>The provisioner\<close>

record Step =
  name :: string
  provisioner :: ca_Provisioner

section \<open>External collaborators\<close>

text \<open>
  The functions of Go's standard library that the package calls
  (\<^verbatim>\<open>encoding/pem\<close>, \<^verbatim>\<open>crypto/x509\<close>, \<^verbatim>\<open>net\<close>, \<^verbatim>\<open>net/url\<close>). Their code is not
  part of the package; every function below takes them as a parameter.
  \<open>pem_Encode\<close> gives what \<^verbatim>\<open>pem.Encode\<close> writes to an empty buffer.
\<close>

record lib =
  pem_Decode :: "bytes \<Rightarrow> pem_Block option \<times> bytes"
  pem_Encode :: "pem_Block \<Rightarrow> error + bytes"
  x509_ParseCertificateRequest :: "bytes \<Rightarrow> error + x509_CertificateRequest"
  CheckSignature :: "x509_CertificateRequest \<Rightarrow> error option"
  IP_String :: "net_IP \<Rightarrow> string"
  URL_String :: "url_URL \<Rightarrow> string"

text \<open>
  The functions of the smallstep CA client: what the CA answers to each call of a
  provisioner.
\<close>

record 'td ca =
  NewProvisioner ::
    "string \<Rightarrow> string \<Rightarrow> string \<Rightarrow> bytes \<Rightarrow> ca_ClientOption list \<Rightarrow> error + ca_Provisioner"
  prov_Version :: "ca_Provisioner \<Rightarrow> error + VersionResponse"
  prov_Roots :: "ca_Provisioner \<Rightarrow> error + RootsResponse"
  prov_Token :: "ca_Provisioner \<Rightarrow> string \<Rightarrow> string list \<Rightarrow> error + string"
  prov_Sign :: "ca_Provisioner \<Rightarrow> 'td SignRequest \<Rightarrow> error + SignResponse"
  CreateCertificateRequest :: "string \<Rightarrow> error + capi_CertificateRequest \<times> crypto_PrivateKey"
  Client_Transport ::
    "ca_Provisioner \<Rightarrow> SignResponse \<Rightarrow> crypto_PrivateKey \<Rightarrow> error + http_Transport"
  zero_TimeDuration :: 'td
  SetDuration :: "'td \<Rightarrow> time_Duration \<Rightarrow> 'td"

text \<open>The calls a provisioner makes to the CA, in the order they are made.\<close>

datatype 'td ca_call =
  Call_Roots
  | Call_Token string "string list"
  | Call_Sign "'td SignRequest"

section \<open>The functions of the package\<close>

subsection \<open>\<^verbatim>\<open>generateSubject\<close>\<close>

text \<open>The \<^verbatim>\<open>for\<close> loop of \<^verbatim>\<open>generateSubject\<close>: \<open>None\<close> when it falls through.\<close>

fun generateSubject_loop :: "string list \<Rightarrow> string option" where
  "generateSubject_loop [] = None"
| "generateSubject_loop (s # rest) =
     (if s \<noteq> ''127.0.0.1'' \<and> s \<noteq> ''localhost'' then Some s
      else generateSubject_loop rest)"

definition generateSubject :: "string list \<Rightarrow> string" where
  "generateSubject sans =
     (if length sans = 0 then ''step-issuer-certificate''
      else
        (case generateSubject_loop sans of
           Some s \<Rightarrow> s
         | None \<Rightarrow> sans ! 0))"

subsection \<open>\<^verbatim>\<open>decodeCSR\<close>\<close>

definition decodeCSR :: "lib \<Rightarrow> bytes \<Rightarrow> error + x509_CertificateRequest" where
  "decodeCSR L data =
     (case pem_Decode L data of
        (None, rest) \<Rightarrow> Inl (Error ''unexpected CSR PEM on sign request'')
      | (Some block, rest) \<Rightarrow>
          if length rest > 0 then Inl (Error ''unexpected CSR PEM on sign request'')
          else if Type block \<noteq> ''CERTIFICATE REQUEST''
            then Inl (Error ''PEM is not a certificate request'')
          else
            (case x509_ParseCertificateRequest L (Bytes block) of
               Inl err \<Rightarrow>
                 Inl (Error (''error parsing certificate request: '' @ message err))
             | Inr csr \<Rightarrow>
                 (case CheckSignature L csr of
                    Some err \<Rightarrow>
                      Inl (Error (''error checking certificate request signature: ''
                                   @ message err))
                  | None \<Rightarrow> Inr csr)))"

subsection \<open>\<^verbatim>\<open>encodeX509\<close>\<close>

definition encodeX509 :: "lib \<Rightarrow> x509_Certificate option \<Rightarrow> bytes result" where
  "encodeX509 L cert =
     (case cert of
        None \<Rightarrow> Panic
      | Some c \<Rightarrow>
          (case pem_Encode L \<lparr>Type = ''CERTIFICATE'', Headers = [], Bytes = Raw c\<rparr> of
             Inl err \<Rightarrow> Err err
           | Inr caPem \<Rightarrow> Ok caPem))"

subsection \<open>\<^verbatim>\<open>Step.Sign\<close>\<close>

text \<open>
  Go's \<^verbatim>\<open>append(s, b...)\<close> on a slice that may be nil: appending nothing to the nil
  slice leaves it nil.
\<close>

definition go_append :: "slice \<Rightarrow> bytes \<Rightarrow> slice" where
  "go_append s b =
     (case s of
        None \<Rightarrow> if b = [] then None else Some b
      | Some bs \<Rightarrow> Some (bs @ b))"

text \<open>The bytes a slice holds; the nil slice holds none.\<close>

definition slice_bytes :: "slice \<Rightarrow> bytes" where
  "slice_bytes s = (case s of None \<Rightarrow> [] | Some bs \<Rightarrow> bs)"

text \<open>The loop over \<^verbatim>\<open>roots.Certificates\<close>, with \<^verbatim>\<open>caPem\<close> as its accumulator.\<close>

fun encode_roots :: "lib \<Rightarrow> capi_Certificate list \<Rightarrow> slice \<Rightarrow> slice result" where
  "encode_roots L [] caPem = Ok caPem"
| "encode_roots L (root # rest) caPem =
     (case encodeX509 L (Certificate root) of
        Panic \<Rightarrow> Panic
      | Err err \<Rightarrow> Err err
      | Ok b \<Rightarrow> encode_roots L rest (go_append caPem b))"

text \<open>Lines 120 to 127: the SAN sequence built from the decoded request.\<close>

definition collect_sans :: "lib \<Rightarrow> x509_CertificateRequest \<Rightarrow> string list" where
  "collect_sans L csr =
     (let sans = [] @ DNSNames csr;
          sans = sans @ EmailAddresses csr;
          sans = foldl (\<lambda>sans ip. sans @ [IP_String L ip]) sans (IPAddresses csr);
          sans = foldl (\<lambda>sans u. sans @ [URL_String L u]) sans (URIs csr)
      in sans)"

text \<open>
  What \<^verbatim>\<open>Sign\<close> hands back: the three values of a \<^verbatim>\<open>return\<close> statement, or a
  panic.
\<close>

datatype sign_outcome = Return slice slice "error option" | Sign_panic

text \<open>
  \<^verbatim>\<open>Sign\<close>, with the calls it has made to the CA when it returns or panics. The
  context argument is not used by the source.
\<close>

definition Sign ::
  "lib \<Rightarrow> 'td ca \<Rightarrow> Step \<Rightarrow> certmanager_CertificateRequest
     \<Rightarrow> sign_outcome \<times> 'td ca_call list" where
  "Sign L C s cr =
     (case prov_Roots C (provisioner s) of
        Inl err \<Rightarrow> (Return None None (Some err), [Call_Roots])
      | Inr roots \<Rightarrow>
     (case encode_roots L (Certificates roots) None of
        Panic \<Rightarrow> (Sign_panic, [Call_Roots])
      | Err err \<Rightarrow> (Return None None (Some err), [Call_Roots])
      | Ok caPem \<Rightarrow>
     (case decodeCSR L (Request (cr_Spec cr)) of
        Inl err \<Rightarrow> (Return None None (Some err), [Call_Roots])
      | Inr csr \<Rightarrow>
     (let sans = collect_sans L csr;
          subject = CommonName (Subject csr);
          subject = (if subject = '''' then generateSubject sans else subject)
      in
     (case prov_Token C (provisioner s) subject sans of
        Inl err \<Rightarrow> (Return None None (Some err), [Call_Roots, Call_Token subject sans])
      | Inr token \<Rightarrow>
     (let notAfter = zero_TimeDuration C;
          notAfter = (case spec_Duration (cr_Spec cr) of
                        None \<Rightarrow> notAfter
                      | Some d \<Rightarrow> SetDuration C notAfter (Duration d));
          req = \<lparr>CsrPEM = \<lparr>CertificateRequest = Some csr\<rparr>,
                 OTT = token,
                 NotAfter = notAfter\<rparr>;
          calls = [Call_Roots, Call_Token subject sans, Call_Sign req]
      in
     (case prov_Sign C (provisioner s) req of
        Inl err \<Rightarrow> (Return None None (Some err), calls)
      | Inr resp \<Rightarrow>
     (case encodeX509 L (Certificate (ServerPEM resp)) of
        Panic \<Rightarrow> (Sign_panic, calls)
      | Err err \<Rightarrow> (Return None None (Some err), calls)
      | Ok certPem \<Rightarrow>
     (case encodeX509 L (Certificate (CaPEM resp)) of
        Panic \<Rightarrow> (Sign_panic, calls)
      | Err err \<Rightarrow> (Return None None (Some err), calls)
      | Ok chainPem \<Rightarrow>
          (Return (go_append (Some certPem) chainPem) caPem None, calls))))))))))"

subsection \<open>\<^verbatim>\<open>createIdentityCertificate\<close> and \<^verbatim>\<open>New\<close>\<close>

text \<open>
  \<^verbatim>\<open>createIdentityCertificate\<close> has a pointer receiver: it returns its error (or nil)
  together with the provisioner as the call leaves it.
\<close>

definition createIdentityCertificate :: "'td ca \<Rightarrow> Step \<Rightarrow> error option \<times> Step" where
  "createIdentityCertificate C s =
     (case CreateCertificateRequest C (name s) of
        Inl err \<Rightarrow> (Some err, s)
      | Inr (csr, pk) \<Rightarrow>
     (case prov_Token C (provisioner s) (name s) [] of
        Inl err \<Rightarrow> (Some err, s)
      | Inr token \<Rightarrow>
     (case prov_Sign C (provisioner s)
             \<lparr>CsrPEM = csr, OTT = token, NotAfter = zero_TimeDuration C\<rparr> of
        Inl err \<Rightarrow> (Some err, s)
      | Inr resp \<Rightarrow>
     (case Client_Transport C (provisioner s) resp pk of
        Inl err \<Rightarrow> (Some err, s)
      | Inr tr \<Rightarrow>
          (None, s\<lparr>provisioner := (provisioner s)\<lparr>Client_transport := tr\<rparr>\<rparr>)))))"

text \<open>\<^verbatim>\<open>New\<close> returns a pointer (nil on failure) and an error (nil on success).\<close>

definition New :: "'td ca \<Rightarrow> api_StepIssuer \<Rightarrow> bytes \<Rightarrow> Step option \<times> error option" where
  "New C iss password =
     (let options = [];
          options = (if length (CABundle (Spec iss)) > 0
                     then options @ [WithCABundle (CABundle (Spec iss))]
                     else options)
      in
     (case NewProvisioner C (prov_Name (Provisioner (Spec iss)))
             (KeyID (Provisioner (Spec iss))) (URL (Spec iss)) password options of
        Inl err \<Rightarrow> (None, Some err)
      | Inr prov \<Rightarrow>
     (let p = \<lparr>name = Name iss @ ''.'' @ Namespace iss, provisioner = prov\<rparr>
      in
     (case prov_Version C prov of
        Inr version \<Rightarrow>
          if RequireClientAuthentication version then
            (case createIdentityCertificate C p of
               (Some err, p') \<Rightarrow> (None, Some err)
             | (None, p') \<Rightarrow> (Some p', None))
          else (Some p, None)
      | Inl err \<Rightarrow> (Some p, None)))))"

subsection \<open>The registry: \<^verbatim>\<open>Load\<close> and \<^verbatim>\<open>Store\<close>\<close>

text \<open>
  The package variable \<^verbatim>\<open>collection\<close> is a \<^verbatim>\<open>sync.Map\<close>: keys are namespaced names,
  values are of the empty interface type. A value is a \<^verbatim>\<open>*Step\<close> (possibly the nil
  pointer) or something of another type, which the type assertion of \<^verbatim>\<open>Load\<close>
  rejects.
\<close>

datatype interface_value = Step_pointer "Step option" | Other_value

type_synonym collection = "NamespacedName \<rightharpoonup> interface_value"

definition Load :: "collection \<Rightarrow> NamespacedName \<Rightarrow> Step option \<times> bool" where
  "Load c namespacedName =
     (case c namespacedName of
        None \<Rightarrow> (None, False)
      | Some v \<Rightarrow>
          (case v of
             Step_pointer p \<Rightarrow> (p, True)
           | Other_value \<Rightarrow> (None, False)))"

definition Store :: "NamespacedName \<Rightarrow> Step option \<Rightarrow> collection \<Rightarrow> collection" where
  "Store namespacedName p c = c(namespacedName \<mapsto> Step_pointer p)"

text \<open>The collection after a sequence of \<^verbatim>\<open>Store\<close> calls, the first call first.\<close>

fun stores :: "(NamespacedName \<times> Step option) list \<Rightarrow> collection \<Rightarrow> collection" where
  "stores [] c = c"
| "stores ((n, p) # rest) c = stores rest (Store n p c)"

text \<open>\<^verbatim>\<open>var collection = new(sync.Map)\<close>: the registry starts empty.\<close>

definition collection_init :: collection where
  "collection_init = Map.empty"

section \<open>Notions used to state the properties\<close>

text \<open>The two SAN entries \<^verbatim>\<open>generateSubject\<close> passes over.\<close>

definition loopback_name :: "string \<Rightarrow> bool" where
  "loopback_name s = (s = ''127.0.0.1'' \<or> s = ''localhost'')"

text \<open>The block \<^verbatim>\<open>encodeX509\<close> hands to \<^verbatim>\<open>pem.Encode\<close> for a certificate.\<close>

definition certificate_block :: "x509_Certificate \<Rightarrow> pem_Block" where
  "certificate_block c = \<lparr>Type = ''CERTIFICATE'', Headers = [], Bytes = Raw c\<rparr>"

text \<open>
  Lines 129 to 132 and 139 to 150 of \<^verbatim>\<open>Sign\<close> on their own: the subject handed to
  the token call and the request handed to the sign call.
\<close>

definition token_subject :: "lib \<Rightarrow> x509_CertificateRequest \<Rightarrow> string" where
  "token_subject L csr =
     (if CommonName (Subject csr) = [] then generateSubject (collect_sans L csr)
      else CommonName (Subject csr))"

definition sign_request ::
  "'td ca \<Rightarrow> certmanager_CertificateRequest \<Rightarrow> x509_CertificateRequest \<Rightarrow> string
     \<Rightarrow> 'td SignRequest" where
  "sign_request C cr csr token =
     \<lparr>CsrPEM = \<lparr>CertificateRequest = Some csr\<rparr>, OTT = token,
      NotAfter = (case spec_Duration (cr_Spec cr) of
                    None \<Rightarrow> zero_TimeDuration C
                  | Some d \<Rightarrow> SetDuration C (zero_TimeDuration C) (Duration d))\<rparr>"

text \<open>
  The notions of the bootstrap at construction. \<open>provisioner_of\<close> is the call of
  \<^verbatim>\<open>ca.NewProvisioner\<close> that \<^verbatim>\<open>New\<close> makes (lines 30 to 34). \<open>exchange_fails\<close> says
  that one of the four steps of the identity-certificate exchange fails: key
  generation, token issuance, signing, transport construction. \<open>bootstrap_failure\<close>
  says that the configuration of the CA is fetched, declares client authentication
  mandatory, and the exchange fails.
\<close>

definition provisioner_of :: "'td ca \<Rightarrow> api_StepIssuer \<Rightarrow> bytes \<Rightarrow> error + ca_Provisioner" where
  "provisioner_of C iss password =
     NewProvisioner C (prov_Name (Provisioner (Spec iss))) (KeyID (Provisioner (Spec iss)))
       (URL (Spec iss)) password
       (if CABundle (Spec iss) = [] then [] else [WithCABundle (CABundle (Spec iss))])"

definition exchange_fails :: "'td ca \<Rightarrow> Step \<Rightarrow> bool" where
  "exchange_fails C p =
     (case CreateCertificateRequest C (name p) of
        Inl err \<Rightarrow> True
      | Inr (csr, pk) \<Rightarrow>
     (case prov_Token C (provisioner p) (name p) [] of
        Inl err \<Rightarrow> True
      | Inr token \<Rightarrow>
     (case prov_Sign C (provisioner p)
             \<lparr>CsrPEM = csr, OTT = token, NotAfter = zero_TimeDuration C\<rparr> of
        Inl err \<Rightarrow> True
      | Inr resp \<Rightarrow>
     (case Client_Transport C (provisioner p) resp pk of
        Inl err \<Rightarrow> True
      | Inr tr \<Rightarrow> False))))"

definition bootstrap_failure :: "'td ca \<Rightarrow> api_StepIssuer \<Rightarrow> bytes \<Rightarrow> bool" where
  "bootstrap_failure C iss password =
     (case provisioner_of C iss password of
        Inl err \<Rightarrow> False
      | Inr prov \<Rightarrow>
          (case prov_Version C prov of
             Inl err \<Rightarrow> False
           | Inr version \<Rightarrow>
               RequireClientAuthentication version
               \<and> exchange_fails C \<lparr>name = Name iss @ ''.'' @ Namespace iss, provisioner = prov\<rparr>))"

text \<open>
  The contract of \<^verbatim>\<open>encoding/pem\<close> that the round trip of \<^verbatim>\<open>encodeX509\<close> rests on: a
  block without headers whose type is a label (capital letters and spaces) is
  encoded without error, and decoding the encoding gives the block back with no
  remaining bytes.
\<close>

definition pem_label :: "string \<Rightarrow> bool" where
  "pem_label t \<longleftrightarrow> t \<noteq> [] \<and> (\<forall>c\<in>set t. c \<in> set ''ABCDEFGHIJKLMNOPQRSTUVWXYZ '')"

definition pem_round_trip :: "lib \<Rightarrow> bool" where
  "pem_round_trip L \<longleftrightarrow>
     (\<forall>block. Headers block = [] \<and> pem_label (Type block) \<longrightarrow>
        (\<exists>out. pem_Encode L block = Inr out \<and> pem_Decode L out = (Some block, [])))"

section \<open>Test doubles\<close>

subsection \<open>A PEM codec\<close>

text \<open>
  A codec for the textual encoding of RFC 7468, to run the functions of the package
  on: a \<^verbatim>\<open>BEGIN\<close> line, the base64 of the bytes in lines of 64 characters, an
  \<^verbatim>\<open>END\<close> line; no headers. The decoder is strict: it accepts what the encoder
  writes, followed by any remaining bytes.
\<close>

definition bytes_of_string :: "string \<Rightarrow> bytes" where
  "bytes_of_string s = map (\<lambda>c. of_nat (of_char c)) s"

definition string_of_bytes :: "bytes \<Rightarrow> string" where
  "string_of_bytes bs = map (\<lambda>b. char_of (unat b)) bs"

definition base64_alphabet :: string where
  "base64_alphabet = ''ABCDEFGHIJKLMNOPQRSTUVWXYZabcdefghijklmnopqrstuvwxyz0123456789+/''"

definition enc6 :: "nat \<Rightarrow> char" where
  "enc6 n = base64_alphabet ! n"

definition dec6 :: "char \<Rightarrow> nat option" where
  "dec6 c = map_of (zip base64_alphabet [0..<64]) c"

fun base64_encode :: "bytes \<Rightarrow> string" where
  "base64_encode [] = []"
| "base64_encode [a] =
     (let n = unat a * 65536
      in [enc6 (n div 262144), enc6 (n div 4096 mod 64), CHR ''='', CHR ''=''])"
| "base64_encode [a, b] =
     (let n = unat a * 65536 + unat b * 256
      in [enc6 (n div 262144), enc6 (n div 4096 mod 64), enc6 (n div 64 mod 64), CHR ''=''])"
| "base64_encode (a # b # c # rest) =
     (let n = unat a * 65536 + unat b * 256 + unat c
      in [enc6 (n div 262144), enc6 (n div 4096 mod 64), enc6 (n div 64 mod 64),
          enc6 (n mod 64)])
     @ base64_encode rest"

fun base64_decode :: "string \<Rightarrow> bytes option" where
  "base64_decode [] = Some []"
| "base64_decode (c0 # c1 # c2 # c3 # rest) =
     (case (dec6 c0, dec6 c1) of
        (Some x0, Some x1) \<Rightarrow>
          if c2 = CHR ''='' \<and> c3 = CHR ''='' \<and> rest = []
          then Some [of_nat ((x0 * 64 + x1) div 16)]
          else
            (case dec6 c2 of
               None \<Rightarrow> None
             | Some x2 \<Rightarrow>
                 if c3 = CHR ''='' \<and> rest = []
                 then (let m = (x0 * 64 + x1) * 64 + x2
                       in Some [of_nat (m div 1024), of_nat (m div 4 mod 256)])
                 else
                   (case dec6 c3 of
                      None \<Rightarrow> None
                    | Some x3 \<Rightarrow>
                        (let m = ((x0 * 64 + x1) * 64 + x2) * 64 + x3
                         in map_option
                              (\<lambda>bs. of_nat (m div 65536) # of_nat (m div 256 mod 256)
                                     # of_nat (m mod 256) # bs)
                              (base64_decode rest))))
      | _ \<Rightarrow> None)"
| "base64_decode _ = None"


function wrap64 :: "string \<Rightarrow> string" where
  "wrap64 s = (if s = [] then [] else take 64 s @ [CHR 0x0A] @ wrap64 (drop 64 s))"
  by pat_completeness auto
termination
  by (relation "measure length") auto

declare wrap64.simps [simp del]

definition strip_prefix :: "'a list \<Rightarrow> 'a list \<Rightarrow> 'a list option" where
  "strip_prefix p s = (if take (length p) s = p then Some (drop (length p) s) else None)"

definition pemStart :: string where
  "pemStart = ''-----BEGIN ''"

definition pemEnd :: string where
  "pemEnd = ''-----END ''"

definition pemEndOfLine :: string where
  "pemEndOfLine = ''-----''"

definition pem_encode_text :: "pem_Block \<Rightarrow> string" where
  "pem_encode_text block =
     pemStart @ Type block @ pemEndOfLine @ [CHR 0x0A]
     @ wrap64 (base64_encode (Bytes block))
     @ pemEnd @ Type block @ pemEndOfLine @ [CHR 0x0A]"

definition pem_decode_text :: "string \<Rightarrow> (pem_Block \<times> string) option" where
  "pem_decode_text s =
     (case strip_prefix pemStart s of
        None \<Rightarrow> None
      | Some s1 \<Rightarrow>
     (let label = takeWhile (\<lambda>c. c \<noteq> CHR ''-'') s1
      in
     (case strip_prefix (pemEndOfLine @ [CHR 0x0A]) (dropWhile (\<lambda>c. c \<noteq> CHR ''-'') s1) of
        None \<Rightarrow> None
      | Some s2 \<Rightarrow>
     (let body = takeWhile (\<lambda>c. c \<noteq> CHR ''-'') s2
      in
     (case strip_prefix (pemEnd @ label @ pemEndOfLine @ [CHR 0x0A])
             (dropWhile (\<lambda>c. c \<noteq> CHR ''-'') s2) of
        None \<Rightarrow> None
      | Some rest \<Rightarrow>
     (case base64_decode (filter (\<lambda>c. c \<noteq> CHR 0x0A) body) of
        None \<Rightarrow> None
      | Some bs \<Rightarrow> Some (\<lparr>Type = label, Headers = [], Bytes = bs\<rparr>, rest)))))))"

text \<open>The codec as \<^verbatim>\<open>pem.Encode\<close> and \<^verbatim>\<open>pem.Decode\<close> of a library.\<close>

definition pem_codec_Encode :: "pem_Block \<Rightarrow> error + bytes" where
  "pem_codec_Encode block =
     (if Headers block = [] then Inr (bytes_of_string (pem_encode_text block))
      else Inl (Error ''pem: headers are not supported''))"

definition pem_codec_Decode :: "bytes \<Rightarrow> pem_Block option \<times> bytes" where
  "pem_codec_Decode data =
     (case pem_decode_text (string_of_bytes data) of
        None \<Rightarrow> (None, data)
      | Some (block, rest) \<Rightarrow> (Some block, bytes_of_string rest))"

subsection \<open>A library and a CA\<close>

text \<open>
  A stand-in library, with the PEM codec, and a stand-in CA with fixed answers.
\<close>

definition test_csr :: "string \<Rightarrow> string list \<Rightarrow> x509_CertificateRequest" where
  "test_csr cn dns =
     \<lparr>Signature = [1], Subject = \<lparr>CommonName = cn\<rparr>, DNSNames = dns,
      EmailAddresses = [], IPAddresses = [], URIs = []\<rparr>"

definition full_csr :: x509_CertificateRequest where
  "full_csr =
     \<lparr>Signature = [1], Subject = \<lparr>CommonName = ''example.com''\<rparr>,
      DNSNames = [''example.com'', ''www.example.com''],
      EmailAddresses = [''ops@example.com''],
      IPAddresses = [[10, 0, 0, 7], [127, 0, 0, 1]],
      URIs = [\<lparr>Scheme = ''spiffe'', Host = ''example.com'', Path = ''/svc''\<rparr>]\<rparr>"

text \<open>
  The stand-in for \<^verbatim>\<open>x509.ParseCertificateRequest\<close> knows five DER inputs, \<open>[1]\<close> to
  \<open>[5]\<close>; the request of \<open>[5]\<close> has no signature, and the stand-in for
  \<^verbatim>\<open>CheckSignature\<close> rejects it.
\<close>

definition test_parse :: "bytes \<Rightarrow> error + x509_CertificateRequest" where
  "test_parse der =
     (if der = [1] then Inr full_csr
      else if der = [2] then Inr (test_csr [] [])
      else if der = [3] then Inr (test_csr [] [''127.0.0.1'', ''localhost''])
      else if der = [4] then Inr (test_csr [] [''127.0.0.1'', ''app.example.com''])
      else if der = [5] then Inr ((test_csr ''example.com'' [])\<lparr>Signature := []\<rparr>)
      else Inl (Error ''asn1: syntax error''))"

definition test_lib :: lib where
  "test_lib =
     \<lparr>pem_Decode = pem_codec_Decode,
      pem_Encode = pem_codec_Encode,
      x509_ParseCertificateRequest = test_parse,
      CheckSignature = (\<lambda>csr. if Signature csr = [] then Some (Error ''x509: bad signature'')
                               else None),
      IP_String = (\<lambda>ip. if ip = [127, 0, 0, 1] then ''127.0.0.1'' else ''10.0.0.7''),
      URL_String = (\<lambda>u. Scheme u @ ''://'' @ Host u @ Path u)\<rparr>"

definition test_cert :: "nat \<Rightarrow> capi_Certificate" where
  "test_cert n = \<lparr>Certificate = Some \<lparr>Raw = [of_nat n]\<rparr>\<rparr>"

text \<open>
  A CA whose answers depend on the handle of the provisioner that calls:
  2 fails the roots fetch, 3 the token, 4 the sign call, 5 the version fetch;
  6 does not require client authentication; 7 fails the transport. Its
  \<^verbatim>\<open>TimeDuration\<close> is a pair of a time and a duration, as in the smallstep library:
  the zero value has both at zero, and \<^verbatim>\<open>SetDuration\<close> clears the time and sets the
  duration.
\<close>

definition test_ca :: "(nat \<times> time_Duration) ca" where
  "test_ca =
     \<lparr>NewProvisioner = (\<lambda>name kid url password options.
          if url = [] then Inl (Error ''missing url'')
          else Inr \<lparr>handle = length kid, Client_transport = Transport 0\<rparr>),
      prov_Version = (\<lambda>p. if handle p = 5 then Inl (Error ''version: connection refused'')
          else Inr \<lparr>Version = ''0.15'', RequireClientAuthentication = (handle p \<noteq> 6)\<rparr>),
      prov_Roots = (\<lambda>p. if handle p = 2 then Inl (Error ''roots: connection refused'')
          else Inr \<lparr>Certificates = [test_cert 10, test_cert 11]\<rparr>),
      prov_Token = (\<lambda>p subject sans. if handle p = 3 then Inl (Error ''token: bad key'')
          else Inr (''ott:'' @ subject)),
      prov_Sign = (\<lambda>p req. if handle p = 4 then Inl (Error ''sign: forbidden'')
          else Inr \<lparr>ServerPEM = test_cert 20, CaPEM = test_cert 21\<rparr>),
      CreateCertificateRequest = (\<lambda>name. if name = ''.''
          then Inl (Error ''csr: empty name'')
          else Inr (\<lparr>CertificateRequest = Some (test_csr name [name])\<rparr>, PrivateKey 1)),
      Client_Transport = (\<lambda>p resp pk. if handle p = 7 then Inl (Error ''transport: bad key'')
          else Inr (Transport 1)),
      zero_TimeDuration = (0, 0),
      SetDuration = (\<lambda>td d. (0, d))\<rparr>"

definition test_step :: "nat \<Rightarrow> Step" where
  "test_step h =
     \<lparr>name = ''issuer.ns'', provisioner = \<lparr>handle = h, Client_transport = Transport 0\<rparr>\<rparr>"

text \<open>
  The PEM text of a certificate request whose DER bytes are \<open>[k]\<close>, the certificate
  request that carries it, and the PEM text of the certificate \<open>test_cert n\<close>.
\<close>

definition test_request :: "byte \<Rightarrow> bytes" where
  "test_request k =
     bytes_of_string
       (pem_encode_text \<lparr>Type = ''CERTIFICATE REQUEST'', Headers = [], Bytes = [k]\<rparr>)"

definition test_cr :: "byte \<Rightarrow> metav1_Duration option \<Rightarrow> certmanager_CertificateRequest" where
  "test_cr k d = \<lparr>cr_Spec = \<lparr>spec_Duration = d, Request = test_request k\<rparr>\<rparr>"

definition cert_pem :: "nat \<Rightarrow> bytes" where
  "cert_pem n = bytes_of_string (pem_encode_text (certificate_block \<lparr>Raw = [of_nat n]\<rparr>))"

definition test_pem :: string where
  "test_pem =
     ''-----BEGIN CERTIFICATE-----'' @ [CHR 0x0A] @ ''MIIB'' @ [CHR 0x0A]
     @ ''-----END CERTIFICATE-----'' @ [CHR 0x0A]"

definition test_request_pem :: string where
  "test_request_pem =
     ''-----BEGIN CERTIFICATE REQUEST-----'' @ [CHR 0x0A] @ ''AQ=='' @ [CHR 0x0A]
     @ ''-----END CERTIFICATE REQUEST-----'' @ [CHR 0x0A]"

definition test_issuer :: "string \<Rightarrow> string \<Rightarrow> api_StepIssuer" where
  "test_issuer kid url =
     \<lparr>Name = ''issuer'', Namespace = ''ns'',
      Spec = \<lparr>URL = url, CABundle = [], Provisioner = \<lparr>prov_Name = ''admin'', KeyID = kid\<rparr>\<rparr>\<rparr>"

definition test_name :: "string \<Rightarrow> NamespacedName" where
  "test_name n = \<lparr>nn_Namespace = ''ns'', nn_Name = n\<rparr>"

section \<open>Properties\<close>

subsection \<open>Encoding certificates\<close>

lemma encodeX509_Ok:
  "encodeX509 L cert = Ok b \<longleftrightarrow>
     (\<exists>c. cert = Some c \<and> pem_Encode L (certificate_block c) = Inr b)"
  by (auto simp: encodeX509_def certificate_block_def split: option.splits sum.splits)

lemma slice_bytes_go_append: "slice_bytes (go_append s b) = slice_bytes s @ b"
  by (simp add: slice_bytes_def go_append_def split: option.splits)

lemma encode_roots_Ok:
  "encode_roots L roots acc = Ok caPem \<Longrightarrow>
     \<exists>pems. list_all2 (\<lambda>root pem. encodeX509 L (Certificate root) = Ok pem) roots pems
          \<and> slice_bytes caPem = slice_bytes acc @ concat pems"
proof (induction roots arbitrary: acc)
  case Nil
  then show ?case by simp
next
  case (Cons root roots)
  from Cons.prems obtain b where b: "encodeX509 L (Certificate root) = Ok b"
    and rest: "encode_roots L roots (go_append acc b) = Ok caPem"
    by (auto split: result.splits)
  from Cons.IH[OF rest] obtain pems where
    "list_all2 (\<lambda>root pem. encodeX509 L (Certificate root) = Ok pem) roots pems"
    "slice_bytes caPem = slice_bytes (go_append acc b) @ concat pems" by blast
  with b show ?case
    by (intro exI[of _ "b # pems"]) (simp add: slice_bytes_go_append)
qed

subsection \<open>\<^verbatim>\<open>generateSubject\<close> and the SAN sequence\<close>

lemma generateSubject_loop_Some:
  "generateSubject_loop sans = Some s \<Longrightarrow>
     \<exists>i<length sans. sans ! i = s \<and> \<not> loopback_name s \<and> (\<forall>j<i. loopback_name (sans ! j))"
proof (induction sans)
  case Nil
  then show ?case by simp
next
  case (Cons a sans)
  show ?case
  proof (cases "loopback_name a")
    case True
    with Cons.prems have "generateSubject_loop sans = Some s"
      by (auto simp: loopback_name_def split: if_splits)
    from Cons.IH[OF this] obtain i where i: "i < length sans" "sans ! i = s"
      "\<not> loopback_name s" "\<forall>j<i. loopback_name (sans ! j)" by blast
    have "\<forall>j<Suc i. loopback_name ((a # sans) ! j)"
      using True i(4) by (auto simp: nth_Cons split: nat.splits)
    with i show ?thesis by (intro exI[of _ "Suc i"]) simp
  next
    case False
    with Cons.prems have "a = s" by (auto simp: loopback_name_def split: if_splits)
    with False show ?thesis by (intro exI[of _ 0]) simp
  qed
qed

lemma generateSubject_loop_None:
  "generateSubject_loop sans = None \<longleftrightarrow> (\<forall>x\<in>set sans. loopback_name x)"
  by (induction sans) (auto simp: loopback_name_def)

lemma generateSubject_cases:
  "(sans = [] \<longrightarrow> generateSubject sans = ''step-issuer-certificate'')
 \<and> ((\<exists>x\<in>set sans. \<not> loopback_name x) \<longrightarrow>
      (\<exists>i<length sans. generateSubject sans = sans ! i \<and> \<not> loopback_name (sans ! i)
          \<and> (\<forall>j<i. loopback_name (sans ! j))))
 \<and> (sans \<noteq> [] \<and> (\<forall>x\<in>set sans. loopback_name x) \<longrightarrow> generateSubject sans = sans ! 0)"
proof (intro conjI impI)
  assume "sans = []"
  then show "generateSubject sans = ''step-issuer-certificate''"
    by (simp add: generateSubject_def)
next
  assume ex: "\<exists>x\<in>set sans. \<not> loopback_name x"
  then have ne: "sans \<noteq> []" by auto
  from ex obtain s where s: "generateSubject_loop sans = Some s"
    using generateSubject_loop_None[of sans] by (cases "generateSubject_loop sans") auto
  with ne have "generateSubject sans = s" by (simp add: generateSubject_def)
  with generateSubject_loop_Some[OF s]
  show "\<exists>i<length sans. generateSubject sans = sans ! i \<and> \<not> loopback_name (sans ! i)
          \<and> (\<forall>j<i. loopback_name (sans ! j))"
    by auto
next
  assume "sans \<noteq> [] \<and> (\<forall>x\<in>set sans. loopback_name x)"
  then show "generateSubject sans = sans ! 0"
    using generateSubject_loop_None[of sans] by (simp add: generateSubject_def)
qed

lemma collect_sans_eq:
  "collect_sans L csr =
     DNSNames csr @ EmailAddresses csr @ map (IP_String L) (IPAddresses csr)
       @ map (URL_String L) (URIs csr)"
proof -
  have f: "foldl (\<lambda>sans x. sans @ [g x]) acc xs = acc @ map g xs"
    for g :: "'a \<Rightarrow> string" and acc xs
    by (induction xs arbitrary: acc) simp_all
  show ?thesis by (simp add: collect_sans_def Let_def f)
qed


subsection \<open>The paths through \<^verbatim>\<open>Sign\<close>\<close>

lemma Sign_cases [case_names roots_error roots_panic roots_encode_error decode_error
    token_error sign_error leaf_panic leaf_error chain_panic chain_error success]:
  obtains
    (roots_error) err where
      "prov_Roots C (provisioner s) = Inl err"
      "Sign L C s cr = (Return None None (Some err), [Call_Roots])"
  | (roots_panic) roots where
      "prov_Roots C (provisioner s) = Inr roots"
      "encode_roots L (Certificates roots) None = Panic"
      "Sign L C s cr = (Sign_panic, [Call_Roots])"
  | (roots_encode_error) roots err where
      "prov_Roots C (provisioner s) = Inr roots"
      "encode_roots L (Certificates roots) None = Err err"
      "Sign L C s cr = (Return None None (Some err), [Call_Roots])"
  | (decode_error) roots caPem err where
      "prov_Roots C (provisioner s) = Inr roots"
      "encode_roots L (Certificates roots) None = Ok caPem"
      "decodeCSR L (Request (cr_Spec cr)) = Inl err"
      "Sign L C s cr = (Return None None (Some err), [Call_Roots])"
  | (token_error) roots caPem csr err where
      "prov_Roots C (provisioner s) = Inr roots"
      "encode_roots L (Certificates roots) None = Ok caPem"
      "decodeCSR L (Request (cr_Spec cr)) = Inr csr"
      "prov_Token C (provisioner s) (token_subject L csr) (collect_sans L csr) = Inl err"
      "Sign L C s cr =
         (Return None None (Some err),
          [Call_Roots, Call_Token (token_subject L csr) (collect_sans L csr)])"
  | (sign_error) roots caPem csr token err where
      "prov_Roots C (provisioner s) = Inr roots"
      "encode_roots L (Certificates roots) None = Ok caPem"
      "decodeCSR L (Request (cr_Spec cr)) = Inr csr"
      "prov_Token C (provisioner s) (token_subject L csr) (collect_sans L csr) = Inr token"
      "prov_Sign C (provisioner s) (sign_request C cr csr token) = Inl err"
      "Sign L C s cr =
         (Return None None (Some err),
          [Call_Roots, Call_Token (token_subject L csr) (collect_sans L csr),
           Call_Sign (sign_request C cr csr token)])"
  | (leaf_panic) roots caPem csr token resp where
      "prov_Roots C (provisioner s) = Inr roots"
      "encode_roots L (Certificates roots) None = Ok caPem"
      "decodeCSR L (Request (cr_Spec cr)) = Inr csr"
      "prov_Token C (provisioner s) (token_subject L csr) (collect_sans L csr) = Inr token"
      "prov_Sign C (provisioner s) (sign_request C cr csr token) = Inr resp"
      "encodeX509 L (Certificate (ServerPEM resp)) = Panic"
      "Sign L C s cr =
         (Sign_panic,
          [Call_Roots, Call_Token (token_subject L csr) (collect_sans L csr),
           Call_Sign (sign_request C cr csr token)])"
  | (leaf_error) roots caPem csr token resp err where
      "prov_Roots C (provisioner s) = Inr roots"
      "encode_roots L (Certificates roots) None = Ok caPem"
      "decodeCSR L (Request (cr_Spec cr)) = Inr csr"
      "prov_Token C (provisioner s) (token_subject L csr) (collect_sans L csr) = Inr token"
      "prov_Sign C (provisioner s) (sign_request C cr csr token) = Inr resp"
      "encodeX509 L (Certificate (ServerPEM resp)) = Err err"
      "Sign L C s cr =
         (Return None None (Some err),
          [Call_Roots, Call_Token (token_subject L csr) (collect_sans L csr),
           Call_Sign (sign_request C cr csr token)])"
  | (chain_panic) roots caPem csr token resp certPem where
      "prov_Roots C (provisioner s) = Inr roots"
      "encode_roots L (Certificates roots) None = Ok caPem"
      "decodeCSR L (Request (cr_Spec cr)) = Inr csr"
      "prov_Token C (provisioner s) (token_subject L csr) (collect_sans L csr) = Inr token"
      "prov_Sign C (provisioner s) (sign_request C cr csr token) = Inr resp"
      "encodeX509 L (Certificate (ServerPEM resp)) = Ok certPem"
      "encodeX509 L (Certificate (CaPEM resp)) = Panic"
      "Sign L C s cr =
         (Sign_panic,
          [Call_Roots, Call_Token (token_subject L csr) (collect_sans L csr),
           Call_Sign (sign_request C cr csr token)])"
  | (chain_error) roots caPem csr token resp certPem err where
      "prov_Roots C (provisioner s) = Inr roots"
      "encode_roots L (Certificates roots) None = Ok caPem"
      "decodeCSR L (Request (cr_Spec cr)) = Inr csr"
      "prov_Token C (provisioner s) (token_subject L csr) (collect_sans L csr) = Inr token"
      "prov_Sign C (provisioner s) (sign_request C cr csr token) = Inr resp"
      "encodeX509 L (Certificate (ServerPEM resp)) = Ok certPem"
      "encodeX509 L (Certificate (CaPEM resp)) = Err err"
      "Sign L C s cr =
         (Return None None (Some err),
          [Call_Roots, Call_Token (token_subject L csr) (collect_sans L csr),
           Call_Sign (sign_request C cr csr token)])"
  | (success) roots caPem csr token resp certPem chainPem where
      "prov_Roots C (provisioner s) = Inr roots"
      "encode_roots L (Certificates roots) None = Ok caPem"
      "decodeCSR L (Request (cr_Spec cr)) = Inr csr"
      "prov_Token C (provisioner s) (token_subject L csr) (collect_sans L csr) = Inr token"
      "prov_Sign C (provisioner s) (sign_request C cr csr token) = Inr resp"
      "encodeX509 L (Certificate (ServerPEM resp)) = Ok certPem"
      "encodeX509 L (Certificate (CaPEM resp)) = Ok chainPem"
      "Sign L C s cr =
         (Return (Some (certPem @ chainPem)) caPem None,
          [Call_Roots, Call_Token (token_subject L csr) (collect_sans L csr),
           Call_Sign (sign_request C cr csr token)])"
proof (cases "prov_Roots C (provisioner s)")
  case (Inl err)
  then show ?thesis using roots_error by (simp add: Sign_def)
next
  case roots: (Inr roots)
  show ?thesis
  proof (cases "encode_roots L (Certificates roots) None")
    case Panic
    with roots show ?thesis using roots_panic by (simp add: Sign_def)
  next
    case (Err err)
    with roots show ?thesis using roots_encode_error by (simp add: Sign_def)
  next
    case enc: (Ok caPem)
    show ?thesis
    proof (cases "decodeCSR L (Request (cr_Spec cr))")
      case (Inl err)
      with roots enc show ?thesis using decode_error by (simp add: Sign_def)
    next
      case csr: (Inr csr)
      note pre = roots enc csr
      show ?thesis
      proof (cases "prov_Token C (provisioner s) (token_subject L csr) (collect_sans L csr)")
        case (Inl err)
        have "Sign L C s cr =
                (Return None None (Some err),
                 [Call_Roots, Call_Token (token_subject L csr) (collect_sans L csr)])"
          using pre Inl by (simp add: Sign_def Let_def token_subject_def)
        with pre Inl show ?thesis using token_error by blast
      next
        case tok: (Inr token)
        let ?req = "sign_request C cr csr token"
        let ?calls = "[Call_Roots, Call_Token (token_subject L csr) (collect_sans L csr),
                       Call_Sign ?req]"
        have unfold: "Sign L C s cr =
           (case prov_Sign C (provisioner s) ?req of
              Inl err \<Rightarrow> (Return None None (Some err), ?calls)
            | Inr resp \<Rightarrow>
               (case encodeX509 L (Certificate (ServerPEM resp)) of
                  Panic \<Rightarrow> (Sign_panic, ?calls)
                | Err err \<Rightarrow> (Return None None (Some err), ?calls)
                | Ok certPem \<Rightarrow>
                   (case encodeX509 L (Certificate (CaPEM resp)) of
                      Panic \<Rightarrow> (Sign_panic, ?calls)
                    | Err err \<Rightarrow> (Return None None (Some err), ?calls)
                    | Ok chainPem \<Rightarrow>
                        (Return (go_append (Some certPem) chainPem) caPem None, ?calls))))"
          using pre tok
          by (simp add: Sign_def Let_def token_subject_def sign_request_def
                   split del: if_split cong: option.case_cong sum.case_cong result.case_cong)
        show ?thesis
        proof (cases "prov_Sign C (provisioner s) ?req")
          case (Inl err)
          with unfold have "Sign L C s cr = (Return None None (Some err), ?calls)" by simp
          with pre tok Inl show ?thesis using sign_error by blast
        next
          case resp: (Inr resp)
          show ?thesis
          proof (cases "encodeX509 L (Certificate (ServerPEM resp))")
            case Panic
            with unfold resp have "Sign L C s cr = (Sign_panic, ?calls)" by simp
            with pre tok resp Panic show ?thesis using leaf_panic by blast
          next
            case (Err err)
            with unfold resp have "Sign L C s cr = (Return None None (Some err), ?calls)"
              by simp
            with pre tok resp Err show ?thesis using leaf_error by blast
          next
            case leaf: (Ok certPem)
            show ?thesis
            proof (cases "encodeX509 L (Certificate (CaPEM resp))")
              case Panic
              with unfold resp leaf have "Sign L C s cr = (Sign_panic, ?calls)" by simp
              with pre tok resp leaf Panic show ?thesis using chain_panic by blast
            next
              case (Err err)
              with unfold resp leaf
              have "Sign L C s cr = (Return None None (Some err), ?calls)" by simp
              with pre tok resp leaf Err show ?thesis using chain_error by blast
            next
              case (Ok chainPem)
              with unfold resp leaf
              have "Sign L C s cr = (Return (Some (certPem @ chainPem)) caPem None, ?calls)"
                by (simp add: go_append_def)
              with pre tok resp leaf Ok show ?thesis using success by blast
            qed
          qed
        qed
      qed
    qed
  qed
qed

subsection \<open>The PEM codec keeps the contract\<close>

lemma string_of_bytes_of_string: "string_of_bytes (bytes_of_string s) = s"
proof -
  have "char_of (unat (of_nat (of_char c) :: byte)) = c" for c :: char
    by (simp add: unat_of_nat)
  then show ?thesis
    by (simp add: string_of_bytes_def bytes_of_string_def map_idI)
qed

lemma length_alphabet: "length base64_alphabet = 64"
  by (simp add: base64_alphabet_def)

lemma distinct_alphabet: "distinct base64_alphabet"
  by (simp add: base64_alphabet_def)

lemma dec6_enc6: "n < 64 \<Longrightarrow> dec6 (enc6 n) = Some n"
  unfolding dec6_def enc6_def
  using map_of_zip_nth[of base64_alphabet "[0..<64]" n]
  by (simp add: length_alphabet distinct_alphabet)

lemma enc6_in: "n < 64 \<Longrightarrow> enc6 n \<in> set base64_alphabet"
  by (simp add: enc6_def length_alphabet)

lemma alphabet_chars:
  "c \<in> set base64_alphabet \<Longrightarrow> c \<noteq> CHR ''='' \<and> c \<noteq> CHR ''-'' \<and> c \<noteq> CHR 0x0A"
  by (auto simp: base64_alphabet_def)

lemma sextets_join:
  fixes n :: nat
  shows "((n div 262144 * 64 + n div 4096 mod 64) * 64 + n div 64 mod 64) * 64 + n mod 64 = n"
proof -
  have a: "n div 4096 = n div 64 div 64" and b: "n div 262144 = n div 64 div 64 div 64"
    by (simp_all add: div_mult2_eq)
  have "n div 64 div 64 div 64 * 64 + n div 64 div 64 mod 64 = n div 64 div 64"
    by simp
  moreover have "n div 64 div 64 * 64 + n div 64 mod 64 = n div 64" by simp
  moreover have "n div 64 * 64 + n mod 64 = n" by simp
  ultimately show ?thesis unfolding a b by simp
qed

lemma split_low:
  fixes q r :: nat
  assumes "r < 256"
  shows "(q * 256 + r) div 256 = q" and "(q * 256 + r) mod 256 = r"
proof -
  have "(q * 256 + r) div 256 = q + r div 256" by (rule div_mult_self3) simp
  with assms show "(q * 256 + r) div 256 = q" by (simp only: div_less add_0_right)
  have "(q * 256 + r) mod 256 = r mod 256" by (rule mod_mult_self3)
  with assms show "(q * 256 + r) mod 256 = r" by (simp only: mod_less)
qed

lemma octets:
  fixes a b c :: nat
  assumes "b < 256" "c < 256"
  shows "(a * 65536 + b * 256 + c) div 65536 = a"
    and "(a * 65536 + b * 256 + c) div 256 mod 256 = b"
    and "(a * 65536 + b * 256 + c) mod 256 = c"
proof -
  have 1: "a * 65536 + b * 256 + c = (a * 256 + b) * 256 + c" by simp
  have 2: "((a * 256 + b) * 256 + c) div 256 = a * 256 + b"
    using assms(2) by (rule split_low)
  show "(a * 65536 + b * 256 + c) div 256 mod 256 = b"
    by (simp only: 1 2 split_low(2)[OF assms(1)])
  show "(a * 65536 + b * 256 + c) mod 256 = c"
    by (simp only: 1 split_low(2)[OF assms(2)])
  have "(a * 65536 + b * 256 + c) div 65536 = (a * 65536 + b * 256 + c) div 256 div 256"
    by (simp add: div_mult2_eq)
  also have "\<dots> = a"
    by (simp only: 1 2 split_low(1)[OF assms(1)])
  finally show "(a * 65536 + b * 256 + c) div 65536 = a" .
qed

lemma top_sextet:
  fixes a b c :: nat
  assumes "a < 256" "b < 256" "c < 256"
  shows "(a * 65536 + b * 256 + c) div 262144 < 64"
proof -
  have "a * 65536 + b * 256 + c < 256 * 65536" using assms by simp
  then show ?thesis by (simp add: div_less_iff_less_mult)
qed


lemma sextets_join2:
  fixes n :: nat
  shows "n div 262144 * 64 + n div 4096 mod 64 = n div 4096"
    and "(n div 262144 * 64 + n div 4096 mod 64) * 64 + n div 64 mod 64 = n div 64"
proof -
  have a: "n div 4096 = n div 64 div 64" and b: "n div 262144 = n div 64 div 64 div 64"
    by (simp_all add: div_mult2_eq)
  show 1: "n div 262144 * 64 + n div 4096 mod 64 = n div 4096"
    unfolding a b by simp
  have "n div 64 div 64 * 64 + n div 64 mod 64 = n div 64" by simp
  then show "(n div 262144 * 64 + n div 4096 mod 64) * 64 + n div 64 mod 64 = n div 64"
    unfolding 1 unfolding a .
qed

lemma unat_byte: "unat (a :: byte) < 256"
  using unsigned_less[of a, where ?'a = nat] by simp

lemma decode3:
  assumes "dec6 c0 = Some x0" "dec6 c1 = Some x1" "dec6 c2 = Some x2" "dec6 c3 = Some x3"
      and "c2 \<noteq> CHR ''=''" "c3 \<noteq> CHR ''=''"
      and "((x0 * 64 + x1) * 64 + x2) * 64 + x3 = m"
  shows "base64_decode (c0 # c1 # c2 # c3 # rest) =
           map_option
             (\<lambda>bs. of_nat (m div 65536) # of_nat (m div 256 mod 256) # of_nat (m mod 256) # bs)
             (base64_decode rest)"
  using assms by (auto simp: Let_def)

lemma decode2:
  assumes "dec6 c0 = Some x0" "dec6 c1 = Some x1" "dec6 c2 = Some x2"
      and "c2 \<noteq> CHR ''=''"
      and "(x0 * 64 + x1) * 64 + x2 = m"
  shows "base64_decode [c0, c1, c2, CHR ''=''] =
           Some [of_nat (m div 1024), of_nat (m div 4 mod 256)]"
  using assms by (auto simp: Let_def)

lemma decode1:
  assumes "dec6 c0 = Some x0" "dec6 c1 = Some x1"
      and "x0 * 64 + x1 = m"
  shows "base64_decode [c0, c1, CHR ''='', CHR ''=''] = Some [of_nat (m div 16)]"
  using assms by (auto simp: Let_def)

lemma group3:
  fixes a b c :: byte
  defines "n \<equiv> unat a * 65536 + unat b * 256 + unat c"
  shows "base64_decode
           (enc6 (n div 262144) # enc6 (n div 4096 mod 64) # enc6 (n div 64 mod 64)
            # enc6 (n mod 64) # cs)
         = map_option (\<lambda>bs. a # b # c # bs) (base64_decode cs)"
proof -
  have x0: "n div 262144 < 64"
    unfolding n_def by (rule top_sextet) (rule unat_byte)+
  have x: "n div 4096 mod 64 < 64" "n div 64 mod 64 < 64" "n mod 64 < 64" by simp_all
  have ne: "enc6 (n div 64 mod 64) \<noteq> CHR ''=''" "enc6 (n mod 64) \<noteq> CHR ''=''"
    using alphabet_chars enc6_in x by blast+
  have bytes: "of_nat (n div 65536) = a" "of_nat (n div 256 mod 256) = b"
    "of_nat (n mod 256) = c"
    unfolding n_def
    by (simp_all only: octets[OF unat_byte unat_byte] of_nat_unat ucast_id)
  show ?thesis
    using decode3[OF dec6_enc6[OF x0] dec6_enc6[OF x(1)] dec6_enc6[OF x(2)]
            dec6_enc6[OF x(3)] ne sextets_join, of cs]
    by (simp only: bytes)
qed

lemma group2:
  fixes a b :: byte
  defines "n \<equiv> unat a * 65536 + unat b * 256"
  shows "base64_decode
           [enc6 (n div 262144), enc6 (n div 4096 mod 64), enc6 (n div 64 mod 64), CHR ''='']
         = Some [a, b]"
proof -
  have n: "n = unat a * 65536 + unat b * 256 + 0" by (simp add: n_def)
  have x0: "n div 262144 < 64"
    unfolding n by (rule top_sextet) (simp_all add: unat_byte)
  have x: "n div 4096 mod 64 < 64" "n div 64 mod 64 < 64" by simp_all
  have ne: "enc6 (n div 64 mod 64) \<noteq> CHR ''=''"
    using alphabet_chars enc6_in x by blast
  have d: "n div 64 div 1024 = n div 65536" "n div 64 div 4 = n div 256"
    by (simp_all add: div_mult2_eq)
  have o: "n div 65536 = unat a" "n div 256 mod 256 = unat b"
    unfolding n by (rule octets; simp add: unat_byte)+
  have bytes: "of_nat (n div 64 div 1024) = a" "of_nat (n div 64 div 4 mod 256) = b"
    by (simp_all only: d o of_nat_unat ucast_id)
  show ?thesis
    using decode2[OF dec6_enc6[OF x0] dec6_enc6[OF x(1)] dec6_enc6[OF x(2)] ne
            sextets_join2(2)]
    by (simp only: bytes)
qed

lemma group1:
  fixes a :: byte
  defines "n \<equiv> unat a * 65536"
  shows "base64_decode [enc6 (n div 262144), enc6 (n div 4096 mod 64), CHR ''='', CHR ''='']
         = Some [a]"
proof -
  have n: "n = unat a * 65536 + 0 * 256 + 0" by (simp add: n_def)
  have x0: "n div 262144 < 64"
    unfolding n by (rule top_sextet) (simp_all add: unat_byte)
  have x: "n div 4096 mod 64 < 64" by simp
  have d: "n div 4096 div 16 = n div 65536"
    by (simp add: div_mult2_eq)
  have o: "n div 65536 = unat a"
    unfolding n by (rule octets; simp)
  have bytes: "of_nat (n div 4096 div 16) = a"
    by (simp only: d o of_nat_unat ucast_id)
  show ?thesis
    using decode1[OF dec6_enc6[OF x0] dec6_enc6[OF x] sextets_join2(1)]
    by (simp only: bytes)
qed

lemma base64_round_trip: "base64_decode (base64_encode bs) = Some bs"
proof (induction bs rule: base64_encode.induct)
  case 1
  show ?case by simp
next
  case (2 a)
  show ?case using group1[of a] by (simp add: Let_def)
next
  case (3 a b)
  show ?case using group2[of a b] by (simp add: Let_def)
next
  case (4 a b c rest)
  then show ?case using group3[of a b c "base64_encode rest"] by (simp add: Let_def)
qed

lemma base64_chars:
  "x \<in> set (base64_encode bs) \<Longrightarrow> x \<in> set base64_alphabet \<or> x = CHR ''=''"
proof (induction bs arbitrary: x rule: base64_encode.induct)
  case 1
  then show ?case by simp
next
  case (2 a)
  have "unat a * 65536 div 262144 < 64"
    using top_sextet[of "unat a" 0 0] by (simp add: unat_byte)
  with 2 show ?case by (auto simp: Let_def enc6_in)
next
  case (3 a b)
  have "(unat a * 65536 + unat b * 256) div 262144 < 64"
    using top_sextet[of "unat a" "unat b" 0] by (simp add: unat_byte)
  with 3 show ?case by (auto simp: Let_def enc6_in)
next
  case (4 a b c rest)
  have "(unat a * 65536 + unat b * 256 + unat c) div 262144 < 64"
    by (rule top_sextet) (rule unat_byte)+
  with 4 show ?case by (auto simp: Let_def enc6_in)
qed

lemma strip_prefix_append: "strip_prefix p (p @ s) = Some s"
  by (simp add: strip_prefix_def)

lemma unwrap64: "CHR 0x0A \<notin> set s \<Longrightarrow> filter (\<lambda>c. c \<noteq> CHR 0x0A) (wrap64 s) = s"
proof (induction s rule: wrap64.induct)
  case (1 s)
  show ?case
  proof (cases "s = []")
    case True
    then show ?thesis by (simp add: wrap64.simps)
  next
    case False
    from "1.prems" have t: "CHR 0x0A \<notin> set (take 64 s)" and d: "CHR 0x0A \<notin> set (drop 64 s)"
      by (auto dest: in_set_takeD in_set_dropD)
    from t have "filter (\<lambda>c. c \<noteq> CHR 0x0A) (take 64 s) = take 64 s"
      by (auto simp: filter_id_conv)
    moreover from "1.IH"[OF False d]
    have "filter (\<lambda>c. c \<noteq> CHR 0x0A) (wrap64 (drop 64 s)) = drop 64 s" .
    ultimately have "filter (\<lambda>c. c \<noteq> CHR 0x0A) (wrap64 s) = take 64 s @ drop 64 s"
      using False by (subst wrap64.simps) simp
    then show ?thesis by simp
  qed
qed

lemma wrap64_chars: "x \<in> set (wrap64 s) \<Longrightarrow> x \<in> set s \<or> x = CHR 0x0A"
proof (induction s rule: wrap64.induct)
  case (1 s)
  show ?case
  proof (cases "s = []")
    case True
    with "1.prems" show ?thesis by (simp add: wrap64.simps)
  next
    case False
    with "1.prems" have "x \<in> set (take 64 s) \<or> x = CHR 0x0A \<or> x \<in> set (wrap64 (drop 64 s))"
      by (subst (asm) wrap64.simps) auto
    with "1.IH"[OF False] show ?thesis
      by (auto dest: in_set_takeD in_set_dropD)
  qed
qed

lemma body_no_dash: "CHR ''-'' \<notin> set (wrap64 (base64_encode bs))"
proof
  assume "CHR ''-'' \<in> set (wrap64 (base64_encode bs))"
  then have "CHR ''-'' \<in> set (base64_encode bs)"
    using wrap64_chars by fastforce
  then show False
    using base64_chars alphabet_chars by fastforce
qed

lemma base64_no_newline: "CHR 0x0A \<notin> set (base64_encode bs)"
  using base64_chars alphabet_chars by fastforce

lemma split_at_dash:
  assumes "CHR ''-'' \<notin> set xs"
  shows "takeWhile (\<lambda>c. c \<noteq> CHR ''-'') (xs @ CHR ''-'' # ys) = xs"
    and "dropWhile (\<lambda>c. c \<noteq> CHR ''-'') (xs @ CHR ''-'' # ys) = CHR ''-'' # ys"
  using assms by (induction xs) auto

lemma label_no_dash:
  assumes "pem_label t"
  shows "CHR ''-'' \<notin> set t"
proof
  assume "CHR ''-'' \<in> set t"
  with assms have "CHR ''-'' \<in> set ''ABCDEFGHIJKLMNOPQRSTUVWXYZ ''"
    unfolding pem_label_def by blast
  then show False by simp
qed

lemma split_at_dashes:
  assumes "CHR ''-'' \<notin> set xs"
  shows "takeWhile (\<lambda>c. c \<noteq> CHR ''-'') (xs @ pemEndOfLine @ ys) = xs"
    and "dropWhile (\<lambda>c. c \<noteq> CHR ''-'') (xs @ pemEndOfLine @ ys) = pemEndOfLine @ ys"
    and "takeWhile (\<lambda>c. c \<noteq> CHR ''-'') (xs @ pemEnd @ ys) = xs"
    and "dropWhile (\<lambda>c. c \<noteq> CHR ''-'') (xs @ pemEnd @ ys) = pemEnd @ ys"
  using split_at_dash[OF assms] by (simp_all add: pemEndOfLine_def pemEnd_def)

lemma pem_text_round_trip:
  assumes "Headers block = []" and "pem_label (Type block)"
  shows "pem_decode_text (pem_encode_text block @ rest) = Some (block, rest)"
proof -
  let ?nl = "CHR 0x0A"
  let ?body = "wrap64 (base64_encode (Bytes block))"
  let ?last = "pemEnd @ Type block @ pemEndOfLine @ [?nl]"
  let ?s2 = "?body @ ?last @ rest"
  let ?s1 = "Type block @ pemEndOfLine @ [?nl] @ ?s2"
  have enc: "pem_encode_text block @ rest = pemStart @ ?s1"
    by (simp add: pem_encode_text_def)
  have 1: "strip_prefix pemStart (pem_encode_text block @ rest) = Some ?s1"
    unfolding enc by (rule strip_prefix_append)
  have 2: "takeWhile (\<lambda>c. c \<noteq> CHR ''-'') ?s1 = Type block"
    "dropWhile (\<lambda>c. c \<noteq> CHR ''-'') ?s1 = (pemEndOfLine @ [?nl]) @ ?s2"
    using split_at_dashes(1,2)[OF label_no_dash[OF assms(2)], of "[?nl] @ ?s2"] by simp_all
  have 3: "strip_prefix (pemEndOfLine @ [?nl]) ((pemEndOfLine @ [?nl]) @ ?s2) = Some ?s2"
    by (rule strip_prefix_append)
  have 4: "takeWhile (\<lambda>c. c \<noteq> CHR ''-'') ?s2 = ?body"
    "dropWhile (\<lambda>c. c \<noteq> CHR ''-'') ?s2 = ?last @ rest"
    using split_at_dashes(3,4)[OF body_no_dash, of "Bytes block"
            "Type block @ pemEndOfLine @ [?nl] @ rest"]
    by simp_all
  have 5: "strip_prefix ?last (?last @ rest) = Some rest"
    by (rule strip_prefix_append)
  have 6: "base64_decode (filter (\<lambda>c. c \<noteq> ?nl) ?body) = Some (Bytes block)"
    by (simp only: unwrap64[OF base64_no_newline] base64_round_trip)
  have "pem_decode_text (pem_encode_text block @ rest) =
          Some (\<lparr>Type = Type block, Headers = [], Bytes = Bytes block\<rparr>, rest)"
    by (simp only: pem_decode_text_def Let_def 1 2 3 4 5 6 option.case)
  with assms(1) show ?thesis by simp
qed

lemma bytes_of_string_Nil: "bytes_of_string [] = []"
  by (simp add: bytes_of_string_def)

lemma pem_codec_round_trip:
  assumes "Headers block = []" and "pem_label (Type block)"
  shows "pem_codec_Decode (bytes_of_string (pem_encode_text block @ rest)) =
           (Some block, bytes_of_string rest)"
  using pem_text_round_trip[OF assms, of rest]
  by (simp add: pem_codec_Decode_def string_of_bytes_of_string)

lemma pem_text_not_empty: "bytes_of_string (pem_encode_text block) \<noteq> []"
  by (simp add: bytes_of_string_def pem_encode_text_def pemStart_def)

lemma test_lib_round_trip: "pem_round_trip test_lib"
  unfolding pem_round_trip_def
proof (intro allI impI)
  fix block :: pem_Block
  assume a: "Headers block = [] \<and> pem_label (Type block)"
  then have "pem_codec_Decode (bytes_of_string (pem_encode_text block)) = (Some block, [])"
    using pem_codec_round_trip[of block "[]"] by (simp add: bytes_of_string_Nil)
  with a show "\<exists>out. pem_Encode test_lib block = Inr out
                   \<and> pem_Decode test_lib out = (Some block, [])"
    by (simp add: test_lib_def pem_codec_Encode_def)
qed

subsection \<open>Runs on the test doubles\<close>

lemma pem_labels: "pem_label ''CERTIFICATE''" "pem_label ''CERTIFICATE REQUEST''"
  by (simp_all add: pem_label_def)

lemma test_lib_simps:
  "pem_Decode test_lib = pem_codec_Decode"
  "pem_Encode test_lib = pem_codec_Encode"
  "x509_ParseCertificateRequest test_lib = test_parse"
  "CheckSignature test_lib csr =
     (if Signature csr = [] then Some (Error ''x509: bad signature'') else None)"
  "IP_String test_lib ip = (if ip = [127, 0, 0, 1] then ''127.0.0.1'' else ''10.0.0.7'')"
  "URL_String test_lib u = Scheme u @ ''://'' @ Host u @ Path u"
  by (simp_all add: test_lib_def)

lemma test_cr_simps:
  "Request (cr_Spec (test_cr k d)) = test_request k"
  "spec_Duration (cr_Spec (test_cr k d)) = d"
  by (simp_all add: test_cr_def)

lemma test_request_Decode:
  "pem_codec_Decode (test_request k) =
     (Some \<lparr>Type = ''CERTIFICATE REQUEST'', Headers = [], Bytes = [k]\<rparr>, [])"
  using pem_codec_round_trip
          [of "\<lparr>Type = ''CERTIFICATE REQUEST'', Headers = [], Bytes = [k]\<rparr>" "[]"]
  by (simp add: test_request_def pem_labels bytes_of_string_Nil)

lemma test_encodeX509: "encodeX509 test_lib (Certificate (test_cert n)) = Ok (cert_pem n)"
  by (simp add: encodeX509_def test_cert_def test_lib_simps pem_codec_Encode_def cert_pem_def
        certificate_block_def)

lemma cert_pem_not_empty: "cert_pem n \<noteq> []"
  by (simp add: cert_pem_def pem_text_not_empty)

lemma test_pem_base64: "base64_encode [48, 130, 1] = ''MIIB''" "base64_encode [1] = ''AQ==''"
  by (simp_all add: enc6_def base64_alphabet_def Let_def)

lemma test_pem_wrap:
  "wrap64 ''MIIB'' = ''MIIB'' @ [CHR 0x0A]" "wrap64 ''AQ=='' = ''AQ=='' @ [CHR 0x0A]"
  by (simp_all add: wrap64.simps)

lemma test_pem_encode:
  "pem_encode_text \<lparr>Type = ''CERTIFICATE'', Headers = [], Bytes = [48, 130, 1]\<rparr> = test_pem"
proof -
  have "pem_encode_text \<lparr>Type = ''CERTIFICATE'', Headers = [], Bytes = [48, 130, 1]\<rparr> =
          pemStart @ ''CERTIFICATE'' @ pemEndOfLine @ [CHR 0x0A]
          @ wrap64 (base64_encode [48, 130, 1])
          @ pemEnd @ ''CERTIFICATE'' @ pemEndOfLine @ [CHR 0x0A]"
    by (simp only: pem_encode_text_def pem_Block.simps)
  also have "\<dots> = test_pem"
    unfolding test_pem_base64 test_pem_wrap
    by (simp add: test_pem_def pemStart_def pemEnd_def pemEndOfLine_def)
  finally show ?thesis .
qed

lemma test_request_encode:
  "pem_encode_text \<lparr>Type = ''CERTIFICATE REQUEST'', Headers = [], Bytes = [1]\<rparr> =
     test_request_pem"
proof -
  have "pem_encode_text \<lparr>Type = ''CERTIFICATE REQUEST'', Headers = [], Bytes = [1]\<rparr> =
          pemStart @ ''CERTIFICATE REQUEST'' @ pemEndOfLine @ [CHR 0x0A]
          @ wrap64 (base64_encode [1])
          @ pemEnd @ ''CERTIFICATE REQUEST'' @ pemEndOfLine @ [CHR 0x0A]"
    by (simp only: pem_encode_text_def pem_Block.simps)
  also have "\<dots> = test_request_pem"
    unfolding test_pem_base64 test_pem_wrap
    by (simp add: test_request_pem_def pemStart_def pemEnd_def pemEndOfLine_def)
  finally show ?thesis .
qed

lemma test_request_text: "test_request 1 = bytes_of_string test_request_pem"
  by (simp add: test_request_def test_request_encode)

lemmas test_simps =
  test_lib_simps test_cr_simps test_request_Decode test_encodeX509 cert_pem_not_empty
  test_ca_def test_step_def test_parse_def test_csr_def full_csr_def
  decodeCSR_def go_append_def collect_sans_def generateSubject_def Sign_def Let_def

lemma test_roots:
  "prov_Roots test_ca (provisioner (test_step 1)) = Inr \<lparr>Certificates = [test_cert 10, test_cert 11]\<rparr>"
  by (simp add: test_ca_def test_step_def)

lemma test_encode_roots:
  "encode_roots test_lib (Certificates \<lparr>Certificates = [test_cert 10, test_cert 11]\<rparr>) None
     = Ok (Some (cert_pem 10 @ cert_pem 11))"
  by (simp add: test_simps)

lemma test_decode:
  "decodeCSR test_lib (Request (cr_Spec (test_cr 1 d))) = Inr full_csr"
  "decodeCSR test_lib (Request (cr_Spec (test_cr 2 d))) = Inr (test_csr [] [])"
  "decodeCSR test_lib (Request (cr_Spec (test_cr 3 d))) =
     Inr (test_csr [] [''127.0.0.1'', ''localhost''])"
  "decodeCSR test_lib (Request (cr_Spec (test_cr 4 d))) =
     Inr (test_csr [] [''127.0.0.1'', ''app.example.com''])"
  by (simp_all add: test_simps)

subsection \<open>Claims about the token call\<close>

text \<open>
  C1 (subject resolution). Whenever \<^verbatim>\<open>Sign\<close> has fetched and encoded the roots and
  the request validates to \<open>csr\<close>, the call that follows the roots fetch is the token
  call, for a subject and the SAN sequence \<open>sans\<close> of \<open>csr\<close>, such that: the subject
  is the common name of \<open>csr\<close> when that is not empty, whatever the SANs; otherwise it
  is \<^verbatim>\<open>step-issuer-certificate\<close> when \<open>sans\<close> is empty; otherwise it is the first entry
  of \<open>sans\<close> that is neither \<^verbatim>\<open>127.0.0.1\<close> nor \<^verbatim>\<open>localhost\<close>, every entry before it
  being one of the two; and it is the first entry of \<open>sans\<close> when every entry is one of
  the two.
\<close>

theorem Sign_subject_resolution:
  assumes "prov_Roots C (provisioner s) = Inr roots"
      and "encode_roots L (Certificates roots) None = Ok caPem"
      and "decodeCSR L (Request (cr_Spec cr)) = Inr csr"
  shows "\<exists>subject sans rest.
           snd (Sign L C s cr) = Call_Roots # Call_Token subject sans # rest
         \<and> sans = collect_sans L csr
         \<and> (CommonName (Subject csr) \<noteq> [] \<longrightarrow> subject = CommonName (Subject csr))
         \<and> (CommonName (Subject csr) = [] \<and> sans = [] \<longrightarrow>
              subject = ''step-issuer-certificate'')
         \<and> (CommonName (Subject csr) = [] \<and> (\<exists>x\<in>set sans. \<not> loopback_name x) \<longrightarrow>
              (\<exists>i<length sans. subject = sans ! i \<and> \<not> loopback_name (sans ! i)
                 \<and> (\<forall>j<i. loopback_name (sans ! j))))
         \<and> (CommonName (Subject csr) = [] \<and> sans \<noteq> [] \<and> (\<forall>x\<in>set sans. loopback_name x) \<longrightarrow>
              subject = sans ! 0)"
proof -
  let ?sans = "collect_sans L csr"
  have "\<exists>rest. snd (Sign L C s cr) = Call_Roots # Call_Token (token_subject L csr) ?sans # rest"
    using assms by (cases rule: Sign_cases[of C s L cr]) auto
  then obtain rest where
    calls: "snd (Sign L C s cr) = Call_Roots # Call_Token (token_subject L csr) ?sans # rest"
    by blast
  show ?thesis
  proof (cases "CommonName (Subject csr) = []")
    case False
    then have "token_subject L csr = CommonName (Subject csr)"
      by (simp add: token_subject_def)
    with calls False show ?thesis by simp
  next
    case True
    then have "token_subject L csr = generateSubject ?sans"
      by (simp add: token_subject_def)
    with calls True generateSubject_cases[of ?sans] show ?thesis by simp
  qed
qed

theorem Sign_subject_resolution_witness:
  "snd (Sign test_lib test_ca (test_step 1) (test_cr 1 None)) ! 1 =
     Call_Token ''example.com''
       [''example.com'', ''www.example.com'', ''ops@example.com'', ''10.0.0.7'', ''127.0.0.1'',
        ''spiffe://example.com/svc'']
 \<and> snd (Sign test_lib test_ca (test_step 1) (test_cr 2 None)) ! 1 =
     Call_Token ''step-issuer-certificate'' []
 \<and> snd (Sign test_lib test_ca (test_step 1) (test_cr 3 None)) ! 1 =
     Call_Token ''127.0.0.1'' [''127.0.0.1'', ''localhost'']
 \<and> snd (Sign test_lib test_ca (test_step 1) (test_cr 4 None)) ! 1 =
     Call_Token ''app.example.com'' [''127.0.0.1'', ''app.example.com'']"
proof -
  note run = Sign_subject_resolution[OF test_roots test_encode_roots]
  have 1: "snd (Sign test_lib test_ca (test_step 1) (test_cr 1 None)) ! 1 =
     Call_Token ''example.com''
       [''example.com'', ''www.example.com'', ''ops@example.com'', ''10.0.0.7'', ''127.0.0.1'',
        ''spiffe://example.com/svc'']"
    using run[OF test_decode(1), of None] by (simp add: test_simps)
  have 2: "snd (Sign test_lib test_ca (test_step 1) (test_cr 2 None)) ! 1 =
     Call_Token ''step-issuer-certificate'' []"
    using run[OF test_decode(2), of None] by (simp add: test_simps)
  have 3: "snd (Sign test_lib test_ca (test_step 1) (test_cr 3 None)) ! 1 =
     Call_Token ''127.0.0.1'' [''127.0.0.1'', ''localhost'']"
    using run[OF test_decode(3), of None] by (simp add: test_simps)
  have 4: "snd (Sign test_lib test_ca (test_step 1) (test_cr 4 None)) ! 1 =
     Call_Token ''app.example.com'' [''127.0.0.1'', ''app.example.com'']"
    using run[OF test_decode(4), of None] by (simp add: test_simps)
  from 1 2 3 4 show ?thesis by blast
qed

text \<open>
  C6 (SAN collection order). Whenever \<^verbatim>\<open>Sign\<close> has fetched and encoded the roots and
  the request validates to \<open>csr\<close>, the SAN sequence of its token call is the DNS names
  of \<open>csr\<close>, then its email addresses, then its IP addresses rendered by
  \<^verbatim>\<open>ip.String()\<close>, then its URIs rendered by \<^verbatim>\<open>u.String()\<close>, each group in the order
  of the request; and \<^verbatim>\<open>Sign\<close> makes no other token call.
\<close>

theorem Sign_san_order:
  assumes "prov_Roots C (provisioner s) = Inr roots"
      and "encode_roots L (Certificates roots) None = Ok caPem"
      and "decodeCSR L (Request (cr_Spec cr)) = Inr csr"
  shows "\<exists>subject rest.
           snd (Sign L C s cr) =
             Call_Roots
             # Call_Token subject
                 (DNSNames csr @ EmailAddresses csr @ map (IP_String L) (IPAddresses csr)
                    @ map (URL_String L) (URIs csr))
             # rest
         \<and> (\<forall>subject' sans'. Call_Token subject' sans' \<notin> set rest)"
  using assms
  by (cases rule: Sign_cases[of C s L cr]) (auto simp: collect_sans_eq)

theorem Sign_san_order_witness:
  "\<exists>rest. snd (Sign test_lib test_ca (test_step 1) (test_cr 1 None)) =
     Call_Roots
     # Call_Token ''example.com''
         [''example.com'', ''www.example.com'', ''ops@example.com'', ''10.0.0.7'', ''127.0.0.1'',
          ''spiffe://example.com/svc'']
     # rest"
  using Sign_san_order[OF test_roots test_encode_roots test_decode(1), of None]
  by (simp add: test_simps)

text \<open>
  C7 as stated fails: a supplied duration of zero is handed to \<^verbatim>\<open>SetDuration\<close>, and
  where that leaves the zero value (as in the stand-in CA, whose \<^verbatim>\<open>TimeDuration\<close> is a
  time and a duration), the sign request is the one of a run with no duration: a
  duration was supplied and the request carries no explicit not-after constraint.
\<close>

theorem Sign_zero_duration_not_carried:
  "spec_Duration (cr_Spec (test_cr 1 (Some \<lparr>Duration = 0\<rparr>))) = Some \<lparr>Duration = 0\<rparr>
 \<and> Call_Sign \<lparr>CsrPEM = \<lparr>CertificateRequest = Some full_csr\<rparr>, OTT = ''ott:example.com'',
              NotAfter = zero_TimeDuration test_ca\<rparr>
     \<in> set (snd (Sign test_lib test_ca (test_step 1) (test_cr 1 (Some \<lparr>Duration = 0\<rparr>))))
 \<and> Sign test_lib test_ca (test_step 1) (test_cr 1 (Some \<lparr>Duration = 0\<rparr>)) =
     Sign test_lib test_ca (test_step 1) (test_cr 1 None)"
  by (simp add: test_simps)

text \<open>
  C7, amended (validity duration). The request of every sign call \<^verbatim>\<open>Sign\<close> makes has
  its \<^verbatim>\<open>NotAfter\<close> field at the zero value of \<^verbatim>\<open>capi.TimeDuration\<close> when the
  certificate request gives no duration, and at what \<^verbatim>\<open>SetDuration\<close> makes of the zero
  value and the requested duration when it gives one; the request carries the parsed
  CSR and the token that the token call returned. With a \<^verbatim>\<open>TimeDuration\<close> whose
  \<^verbatim>\<open>SetDuration\<close> leaves the zero value exactly for the duration zero, the field
  differs from the zero value if and only if a duration other than zero was given.
\<close>

theorem Sign_not_after:
  assumes "Call_Sign req \<in> set (snd (Sign L C s cr))"
  shows "(spec_Duration (cr_Spec cr) = None \<longrightarrow> NotAfter req = zero_TimeDuration C)
       \<and> (\<forall>d. spec_Duration (cr_Spec cr) = Some d \<longrightarrow>
            NotAfter req = SetDuration C (zero_TimeDuration C) (Duration d))
       \<and> (\<exists>csr. decodeCSR L (Request (cr_Spec cr)) = Inr csr
            \<and> CsrPEM req = \<lparr>CertificateRequest = Some csr\<rparr>
            \<and> prov_Token C (provisioner s) (token_subject L csr) (collect_sans L csr)
                = Inr (OTT req))
       \<and> ((\<forall>x. SetDuration C (zero_TimeDuration C) x = zero_TimeDuration C \<longleftrightarrow> x = 0) \<longrightarrow>
            (NotAfter req \<noteq> zero_TimeDuration C \<longleftrightarrow>
               (\<exists>d. spec_Duration (cr_Spec cr) = Some d \<and> Duration d \<noteq> 0)))"
proof -
  from assms obtain csr token where
    csr: "decodeCSR L (Request (cr_Spec cr)) = Inr csr" and
    tok: "prov_Token C (provisioner s) (token_subject L csr) (collect_sans L csr) = Inr token" and
    req: "req = sign_request C cr csr token"
    by (cases rule: Sign_cases[of C s L cr]) auto
  from req have na: "NotAfter req =
      (case spec_Duration (cr_Spec cr) of
         None \<Rightarrow> zero_TimeDuration C
       | Some d \<Rightarrow> SetDuration C (zero_TimeDuration C) (Duration d))"
    and rest: "CsrPEM req = \<lparr>CertificateRequest = Some csr\<rparr>" "OTT req = token"
    by (simp_all add: sign_request_def)
  have "NotAfter req \<noteq> zero_TimeDuration C \<longleftrightarrow>
          (\<exists>d. spec_Duration (cr_Spec cr) = Some d \<and> Duration d \<noteq> 0)"
    if law: "\<forall>x. SetDuration C (zero_TimeDuration C) x = zero_TimeDuration C \<longleftrightarrow> x = 0"
  proof (cases "spec_Duration (cr_Spec cr)")
    case None
    with na show ?thesis by simp
  next
    case (Some d)
    with na law show ?thesis by simp
  qed
  with na rest csr tok show ?thesis by simp
qed

theorem Sign_not_after_witness:
  "Call_Sign \<lparr>CsrPEM = \<lparr>CertificateRequest = Some full_csr\<rparr>, OTT = ''ott:example.com'',
              NotAfter = (0, 0)\<rparr>
     \<in> set (snd (Sign test_lib test_ca (test_step 1) (test_cr 1 None)))
 \<and> Call_Sign \<lparr>CsrPEM = \<lparr>CertificateRequest = Some full_csr\<rparr>, OTT = ''ott:example.com'',
              NotAfter = (0, 3600)\<rparr>
     \<in> set (snd (Sign test_lib test_ca (test_step 1) (test_cr 1 (Some \<lparr>Duration = 3600\<rparr>))))
 \<and> zero_TimeDuration test_ca = (0, 0)
 \<and> SetDuration test_ca (zero_TimeDuration test_ca) 3600 = (0, 3600)
 \<and> (\<forall>x. (SetDuration test_ca (zero_TimeDuration test_ca) x = zero_TimeDuration test_ca) = (x = 0))
 \<and> (0, 3600) \<noteq> zero_TimeDuration test_ca"
proof -
  have a: "Call_Sign \<lparr>CsrPEM = \<lparr>CertificateRequest = Some full_csr\<rparr>,
                      OTT = ''ott:example.com'', NotAfter = (0, 0)\<rparr>
     \<in> set (snd (Sign test_lib test_ca (test_step 1) (test_cr 1 None)))"
    by (simp add: test_simps)
  have b: "Call_Sign \<lparr>CsrPEM = \<lparr>CertificateRequest = Some full_csr\<rparr>,
                      OTT = ''ott:example.com'', NotAfter = (0, 3600)\<rparr>
     \<in> set (snd (Sign test_lib test_ca (test_step 1)
                     (test_cr 1 (Some \<lparr>Duration = 3600\<rparr>))))"
    by (simp add: test_simps)
  have law: "\<forall>x. (SetDuration test_ca (zero_TimeDuration test_ca) x = zero_TimeDuration test_ca)
                 = (x = 0)"
    by (simp add: test_ca_def)
  from Sign_not_after[OF b] law
  have "NotAfter \<lparr>CsrPEM = \<lparr>CertificateRequest = Some full_csr\<rparr>,
                   OTT = ''ott:example.com'', NotAfter = (0 :: nat, 3600 :: time_Duration)\<rparr>
          \<noteq> zero_TimeDuration test_ca"
    by (simp add: test_cr_simps)
  with Sign_not_after[OF a] a b law show ?thesis
    by (simp add: test_ca_def test_cr_def)
qed

subsection \<open>Claims about what \<^verbatim>\<open>Sign\<close> returns\<close>

text \<open>
  C10 (failure atomicity). Whenever \<^verbatim>\<open>Sign\<close> returns a non-nil error, both byte
  slices it returns are nil.
\<close>

theorem Sign_failure_atomic:
  assumes "fst (Sign L C s cr) = Return certPem caPem (Some err)"
  shows "certPem = None \<and> caPem = None"
  using assms by (cases rule: Sign_cases[of C s L cr]) auto

theorem Sign_failure_atomic_witness:
  "encode_roots test_lib [test_cert 10, test_cert 11] None =
     Ok (Some (cert_pem 10 @ cert_pem 11))
 \<and> fst (Sign test_lib test_ca (test_step 4) (test_cr 1 None)) =
     Return None None (Some (Error ''sign: forbidden''))"
proof -
  have run: "fst (Sign test_lib test_ca (test_step 4) (test_cr 1 None)) =
               Return None None (Some (Error ''sign: forbidden''))"
    by (simp add: test_simps)
  from Sign_failure_atomic[OF run] run show ?thesis
    by (simp add: test_simps)
qed

text \<open>
  C5 (composite success, error forwarding). \<^verbatim>\<open>Sign\<close> returns a nil error only if the
  roots fetch succeeded and the sign call it made succeeded. If the roots fetch
  fails, or the token call it makes fails, or the sign call it makes fails, \<^verbatim>\<open>Sign\<close>
  returns that very error with nil slices, and the failing call is the last call it
  makes. The calls of \<^verbatim>\<open>Sign\<close> are a prefix of: one roots fetch, one token call, one
  sign call; so no call is made twice.
\<close>

theorem Sign_error_forwarding:
  "(\<forall>certPem caPem. fst (Sign L C s cr) = Return certPem caPem None \<longrightarrow>
      (\<exists>roots req resp. prov_Roots C (provisioner s) = Inr roots
         \<and> Call_Sign req \<in> set (snd (Sign L C s cr))
         \<and> prov_Sign C (provisioner s) req = Inr resp))
 \<and> (\<forall>err. prov_Roots C (provisioner s) = Inl err \<longrightarrow>
      Sign L C s cr = (Return None None (Some err), [Call_Roots]))
 \<and> (\<forall>subject sans err.
      Call_Token subject sans \<in> set (snd (Sign L C s cr))
      \<and> prov_Token C (provisioner s) subject sans = Inl err \<longrightarrow>
      Sign L C s cr = (Return None None (Some err), [Call_Roots, Call_Token subject sans]))
 \<and> (\<forall>req err.
      Call_Sign req \<in> set (snd (Sign L C s cr))
      \<and> prov_Sign C (provisioner s) req = Inl err \<longrightarrow>
      (\<exists>subject sans.
         Sign L C s cr =
           (Return None None (Some err), [Call_Roots, Call_Token subject sans, Call_Sign req])))
 \<and> (\<exists>subject sans req.
      prefix (snd (Sign L C s cr)) [Call_Roots, Call_Token subject sans, Call_Sign req])"
proof (intro conjI allI impI)
  fix certPem caPem
  assume "fst (Sign L C s cr) = Return certPem caPem None"
  then show "\<exists>roots req resp. prov_Roots C (provisioner s) = Inr roots
         \<and> Call_Sign req \<in> set (snd (Sign L C s cr))
         \<and> prov_Sign C (provisioner s) req = Inr resp"
    by (cases rule: Sign_cases[of C s L cr]) auto
next
  fix err
  assume "prov_Roots C (provisioner s) = Inl err"
  then show "Sign L C s cr = (Return None None (Some err), [Call_Roots])"
    by (simp add: Sign_def)
next
  fix subject sans err
  assume "Call_Token subject sans \<in> set (snd (Sign L C s cr))
      \<and> prov_Token C (provisioner s) subject sans = Inl err"
  then show "Sign L C s cr =
      (Return None None (Some err), [Call_Roots, Call_Token subject sans])"
    by (cases rule: Sign_cases[of C s L cr]) auto
next
  fix req err
  assume "Call_Sign req \<in> set (snd (Sign L C s cr))
      \<and> prov_Sign C (provisioner s) req = Inl err"
  then show "\<exists>subject sans. Sign L C s cr =
      (Return None None (Some err), [Call_Roots, Call_Token subject sans, Call_Sign req])"
    by (cases rule: Sign_cases[of C s L cr]) auto
next
  show "\<exists>subject sans req.
      prefix (snd (Sign L C s cr)) [Call_Roots, Call_Token subject sans, Call_Sign req]"
    by (cases rule: Sign_cases[of C s L cr]) (auto simp: prefix_def)
qed

theorem Sign_error_forwarding_witness:
  "Sign test_lib test_ca (test_step 2) (test_cr 1 None) =
     (Return None None (Some (Error ''roots: connection refused'')), [Call_Roots])
 \<and> Sign test_lib test_ca (test_step 3) (test_cr 4 None) =
     (Return None None (Some (Error ''token: bad key'')),
      [Call_Roots, Call_Token ''app.example.com'' [''127.0.0.1'', ''app.example.com'']])
 \<and> fst (Sign test_lib test_ca (test_step 4) (test_cr 4 None)) =
     Return None None (Some (Error ''sign: forbidden''))
 \<and> length (snd (Sign test_lib test_ca (test_step 4) (test_cr 4 None))) = 3
 \<and> fst (Sign test_lib test_ca (test_step 1) (test_cr 4 None)) =
     Return (Some (cert_pem 20 @ cert_pem 21)) (Some (cert_pem 10 @ cert_pem 11)) None"
proof -
  have r: "prov_Roots test_ca (provisioner (test_step 2)) = Inl (Error ''roots: connection refused'')"
    by (simp add: test_ca_def test_step_def)
  have 1: "Sign test_lib test_ca (test_step 2) (test_cr 1 None) =
     (Return None None (Some (Error ''roots: connection refused'')), [Call_Roots])"
    using Sign_error_forwarding[of test_lib test_ca "test_step 2" "test_cr 1 None"] r
    by blast
  have 2: "Sign test_lib test_ca (test_step 3) (test_cr 4 None) =
     (Return None None (Some (Error ''token: bad key'')),
      [Call_Roots, Call_Token ''app.example.com'' [''127.0.0.1'', ''app.example.com'']])"
    by (simp add: test_simps)
  have 3: "Sign test_lib test_ca (test_step 4) (test_cr 4 None) =
     (Return None None (Some (Error ''sign: forbidden'')),
      [Call_Roots, Call_Token ''app.example.com'' [''127.0.0.1'', ''app.example.com''],
       Call_Sign \<lparr>CsrPEM = \<lparr>CertificateRequest =
                    Some (test_csr [] [''127.0.0.1'', ''app.example.com''])\<rparr>,
                  OTT = ''ott:app.example.com'', NotAfter = (0, 0)\<rparr>])"
    by (simp add: test_simps)
  have 4: "fst (Sign test_lib test_ca (test_step 1) (test_cr 4 None)) =
     Return (Some (cert_pem 20 @ cert_pem 21)) (Some (cert_pem 10 @ cert_pem 11)) None"
    by (simp add: test_simps)
  from 1 2 3 4 show ?thesis by simp
qed

text \<open>
  C3 (output assembly). Whenever \<^verbatim>\<open>Sign\<close> returns a nil error, its first slice is the
  PEM encoding of the leaf certificate of the sign response followed by the PEM
  encoding of the intermediate certificate of that response, and its second slice
  holds the PEM encodings of the root certificates, concatenated in the order of the
  roots response. The PEM encoding of a certificate is what \<^verbatim>\<open>pem.Encode\<close> gives for
  the block \<open>certificate_block\<close> of it.
\<close>

theorem Sign_output_assembly:
  assumes "fst (Sign L C s cr) = Return certPem caPem None"
  shows "\<exists>roots req resp leaf intermediate leafPem intermediatePem rootPems.
           prov_Roots C (provisioner s) = Inr roots
         \<and> Call_Sign req \<in> set (snd (Sign L C s cr))
         \<and> prov_Sign C (provisioner s) req = Inr resp
         \<and> Certificate (ServerPEM resp) = Some leaf
         \<and> pem_Encode L (certificate_block leaf) = Inr leafPem
         \<and> Certificate (CaPEM resp) = Some intermediate
         \<and> pem_Encode L (certificate_block intermediate) = Inr intermediatePem
         \<and> certPem = Some (leafPem @ intermediatePem)
         \<and> list_all2
              (\<lambda>root pem. \<exists>c. Certificate root = Some c
                             \<and> pem_Encode L (certificate_block c) = Inr pem)
              (Certificates roots) rootPems
         \<and> slice_bytes caPem = concat rootPems"
proof -
  from assms obtain roots csr token resp leafPem intermediatePem where
    roots: "prov_Roots C (provisioner s) = Inr roots" and
    enc: "encode_roots L (Certificates roots) None = Ok caPem" and
    resp: "prov_Sign C (provisioner s) (sign_request C cr csr token) = Inr resp" and
    leaf: "encodeX509 L (Certificate (ServerPEM resp)) = Ok leafPem" and
    inter: "encodeX509 L (Certificate (CaPEM resp)) = Ok intermediatePem" and
    cert: "certPem = Some (leafPem @ intermediatePem)" and
    calls: "Call_Sign (sign_request C cr csr token) \<in> set (snd (Sign L C s cr))"
    by (cases rule: Sign_cases[of C s L cr]) auto
  from leaf obtain leaf' where
    l: "Certificate (ServerPEM resp) = Some leaf'" "pem_Encode L (certificate_block leaf') = Inr leafPem"
    unfolding encodeX509_Ok by blast
  from inter obtain inter' where
    i: "Certificate (CaPEM resp) = Some inter'"
       "pem_Encode L (certificate_block inter') = Inr intermediatePem"
    unfolding encodeX509_Ok by blast
  from encode_roots_Ok[OF enc] obtain rootPems where
    r: "list_all2 (\<lambda>root pem. encodeX509 L (Certificate root) = Ok pem)
          (Certificates roots) rootPems"
       "slice_bytes caPem = concat rootPems"
    by (auto simp: slice_bytes_def)
  from r(1) have "list_all2
      (\<lambda>root pem. \<exists>c. Certificate root = Some c \<and> pem_Encode L (certificate_block c) = Inr pem)
      (Certificates roots) rootPems"
    by (simp add: encodeX509_Ok)
  with roots resp calls l i cert r(2) show ?thesis by blast
qed

theorem Sign_output_assembly_witness:
  "fst (Sign test_lib test_ca (test_step 1) (test_cr 1 None)) =
     Return (Some (cert_pem 20 @ cert_pem 21)) (Some (concat [cert_pem 10, cert_pem 11])) None
 \<and> prov_Roots test_ca (provisioner (test_step 1)) =
     Inr \<lparr>Certificates = [test_cert 10, test_cert 11]\<rparr>
 \<and> pem_Encode test_lib (certificate_block \<lparr>Raw = [10]\<rparr>) = Inr (cert_pem 10)
 \<and> pem_Encode test_lib (certificate_block \<lparr>Raw = [11]\<rparr>) = Inr (cert_pem 11)
 \<and> pem_Encode test_lib (certificate_block \<lparr>Raw = [20]\<rparr>) = Inr (cert_pem 20)
 \<and> pem_Encode test_lib (certificate_block \<lparr>Raw = [21]\<rparr>) = Inr (cert_pem 21)"
proof -
  have run: "fst (Sign test_lib test_ca (test_step 1) (test_cr 1 None)) =
     Return (Some (cert_pem 20 @ cert_pem 21)) (Some (cert_pem 10 @ cert_pem 11)) None"
    by (simp add: test_simps)
  have enc: "pem_Encode test_lib (certificate_block \<lparr>Raw = [of_nat n]\<rparr>) = Inr (cert_pem n)"
    for n
    by (simp add: test_lib_simps pem_codec_Encode_def cert_pem_def certificate_block_def)
  from Sign_output_assembly[OF run] run enc[of 10] enc[of 11] enc[of 20] enc[of 21]
  show ?thesis
    by (simp add: test_ca_def test_step_def)
qed

subsection \<open>Claims about \<^verbatim>\<open>decodeCSR\<close>\<close>

text \<open>
  C2 (CSR decoding). \<^verbatim>\<open>decodeCSR\<close> returns the request \<open>csr\<close> if and only if
  \<^verbatim>\<open>pem.Decode\<close> gives a block and no remaining bytes, the type of the block is
  \<^verbatim>\<open>CERTIFICATE REQUEST\<close>, the bytes of the block parse to \<open>csr\<close>, and the signature
  of \<open>csr\<close> verifies. Remaining bytes after a block, another block type, a parse
  failure and a signature failure each give an error; the last two errors carry the
  message of their cause.
\<close>

theorem decodeCSR_iff:
  "(decodeCSR L data = Inr csr \<longleftrightarrow>
      (\<exists>block. pem_Decode L data = (Some block, [])
         \<and> Type block = ''CERTIFICATE REQUEST''
         \<and> x509_ParseCertificateRequest L (Bytes block) = Inr csr
         \<and> CheckSignature L csr = None))
 \<and> (\<forall>block rest. pem_Decode L data = (Some block, rest) \<and> rest \<noteq> [] \<longrightarrow>
      decodeCSR L data = Inl (Error ''unexpected CSR PEM on sign request''))
 \<and> (\<forall>block. pem_Decode L data = (Some block, []) \<and> Type block \<noteq> ''CERTIFICATE REQUEST'' \<longrightarrow>
      decodeCSR L data = Inl (Error ''PEM is not a certificate request''))
 \<and> (\<forall>block cause. pem_Decode L data = (Some block, [])
      \<and> Type block = ''CERTIFICATE REQUEST''
      \<and> x509_ParseCertificateRequest L (Bytes block) = Inl cause \<longrightarrow>
      decodeCSR L data =
        Inl (Error (''error parsing certificate request: '' @ message cause)))
 \<and> (\<forall>block parsed cause. pem_Decode L data = (Some block, [])
      \<and> Type block = ''CERTIFICATE REQUEST''
      \<and> x509_ParseCertificateRequest L (Bytes block) = Inr parsed
      \<and> CheckSignature L parsed = Some cause \<longrightarrow>
      decodeCSR L data =
        Inl (Error (''error checking certificate request signature: '' @ message cause)))"
proof (intro conjI allI impI)
  show "decodeCSR L data = Inr csr \<longleftrightarrow>
      (\<exists>block. pem_Decode L data = (Some block, [])
         \<and> Type block = ''CERTIFICATE REQUEST''
         \<and> x509_ParseCertificateRequest L (Bytes block) = Inr csr
         \<and> CheckSignature L csr = None)"
  proof (cases "pem_Decode L data")
    case (Pair b rest)
    show ?thesis
    proof (cases b)
      case None
      with Pair show ?thesis by (simp add: decodeCSR_def)
    next
      case (Some block)
      with Pair show ?thesis
        by (cases "x509_ParseCertificateRequest L (Bytes block)")
           (auto simp: decodeCSR_def split: option.splits)
    qed
  qed
qed (simp_all add: decodeCSR_def)

theorem decodeCSR_iff_witness:
  "test_request 1 = bytes_of_string test_request_pem
 \<and> decodeCSR test_lib (test_request 1) = Inr full_csr
 \<and> decodeCSR test_lib (bytes_of_string (test_request_pem @ ''junk'')) =
     Inl (Error ''unexpected CSR PEM on sign request'')
 \<and> decodeCSR test_lib (bytes_of_string ''junk'') =
     Inl (Error ''unexpected CSR PEM on sign request'')
 \<and> decodeCSR test_lib (bytes_of_string test_pem) =
     Inl (Error ''PEM is not a certificate request'')
 \<and> decodeCSR test_lib (test_request 9) =
     Inl (Error ''error parsing certificate request: asn1: syntax error'')
 \<and> decodeCSR test_lib (test_request 5) =
     Inl (Error ''error checking certificate request signature: x509: bad signature'')"
proof -
  have d: "pem_Decode test_lib (test_request 9) =
             (Some \<lparr>Type = ''CERTIFICATE REQUEST'', Headers = [], Bytes = [9]\<rparr>, [])"
    by (simp add: test_lib_simps test_request_Decode)
  have p: "x509_ParseCertificateRequest test_lib [9] = Inl (Error ''asn1: syntax error'')"
    by (simp add: test_lib_simps test_parse_def)
  have 1: "decodeCSR test_lib (test_request 9) =
     Inl (Error (''error parsing certificate request: '' @ message (Error ''asn1: syntax error'')))"
    using decodeCSR_iff[of test_lib "test_request 9"] d p by simp
  have 2: "decodeCSR test_lib (test_request 1) = Inr full_csr"
    "decodeCSR test_lib (test_request 5) =
       Inl (Error ''error checking certificate request signature: x509: bad signature'')"
    by (simp_all add: test_simps)
  have junk: "pem_codec_Decode (bytes_of_string (test_request_pem @ ''junk'')) =
      (Some \<lparr>Type = ''CERTIFICATE REQUEST'', Headers = [], Bytes = [1]\<rparr>,
       bytes_of_string ''junk'')"
    using pem_codec_round_trip
            [of "\<lparr>Type = ''CERTIFICATE REQUEST'', Headers = [], Bytes = [1]\<rparr>" "''junk''"]
    by (simp add: test_request_encode pem_labels)
  have len: "bytes_of_string ''junk'' \<noteq> []"
    by (simp add: bytes_of_string_def)
  have 3: "decodeCSR test_lib (bytes_of_string (test_request_pem @ ''junk'')) =
     Inl (Error ''unexpected CSR PEM on sign request'')"
    by (simp add: decodeCSR_def test_lib_simps junk len)
  have "pem_decode_text ''junk'' = None"
    by (simp add: pem_decode_text_def strip_prefix_def pemStart_def)
  then have 4: "decodeCSR test_lib (bytes_of_string ''junk'') =
     Inl (Error ''unexpected CSR PEM on sign request'')"
    by (simp add: decodeCSR_def test_lib_simps pem_codec_Decode_def string_of_bytes_of_string)
  have "pem_codec_Decode (bytes_of_string test_pem) =
      (Some \<lparr>Type = ''CERTIFICATE'', Headers = [], Bytes = [48, 130, 1]\<rparr>, [])"
    using pem_codec_round_trip
            [of "\<lparr>Type = ''CERTIFICATE'', Headers = [], Bytes = [48, 130, 1]\<rparr>" "[]"]
    by (simp add: test_pem_encode pem_labels bytes_of_string_Nil)
  then have 5: "decodeCSR test_lib (bytes_of_string test_pem) =
     Inl (Error ''PEM is not a certificate request'')"
    by (simp add: decodeCSR_def test_lib_simps)
  from 1 2 3 4 5 test_request_text show ?thesis by simp
qed

subsection \<open>Claims about \<^verbatim>\<open>New\<close>\<close>

lemma createIdentityCertificate_fails:
  "fst (createIdentityCertificate C p) \<noteq> None \<longleftrightarrow> exchange_fails C p"
  by (simp add: createIdentityCertificate_def exchange_fails_def split: sum.splits prod.splits)

lemma New_unfold:
  "New C iss password =
     (case provisioner_of C iss password of
        Inl err \<Rightarrow> (None, Some err)
      | Inr prov \<Rightarrow>
          (case prov_Version C prov of
             Inl err \<Rightarrow> (Some \<lparr>name = Name iss @ ''.'' @ Namespace iss, provisioner = prov\<rparr>, None)
           | Inr version \<Rightarrow>
               if RequireClientAuthentication version then
                 (case createIdentityCertificate C
                         \<lparr>name = Name iss @ ''.'' @ Namespace iss, provisioner = prov\<rparr> of
                    (Some err, p') \<Rightarrow> (None, Some err)
                  | (None, p') \<Rightarrow> (Some p', None))
               else (Some \<lparr>name = Name iss @ ''.'' @ Namespace iss, provisioner = prov\<rparr>, None)))"
  by (simp add: New_def provisioner_of_def Let_def split: sum.splits)

text \<open>
  C4 as stated fails: \<^verbatim>\<open>New\<close> also fails when \<^verbatim>\<open>ca.NewProvisioner\<close> fails, before any
  configuration of the CA is fetched.
\<close>

theorem New_fails_without_bootstrap:
  "New test_ca (test_issuer ''k'' []) [] = (None, Some (Error ''missing url''))
 \<and> \<not> bootstrap_failure test_ca (test_issuer ''k'' []) []"
  by (simp add: New_unfold bootstrap_failure_def provisioner_of_def test_ca_def test_issuer_def)

text \<open>
  C4, amended (bootstrap outcome at construction). \<^verbatim>\<open>New\<close> fails, that is returns an
  error and no provisioner, exactly when \<^verbatim>\<open>ca.NewProvisioner\<close> fails or the bootstrap
  fails (the configuration of the CA is fetched, declares client authentication
  mandatory, and the identity-certificate exchange fails). \<^verbatim>\<open>New\<close> returns no
  provisioner exactly when it returns an error. When \<^verbatim>\<open>ca.NewProvisioner\<close> fails,
  \<^verbatim>\<open>New\<close> returns its error. When the configuration of the CA cannot be fetched,
  \<^verbatim>\<open>New\<close> returns the provisioner as \<^verbatim>\<open>ca.NewProvisioner\<close> built it, and no error.
\<close>

theorem New_failure_iff:
  "((fst (New C iss password) = None \<and> snd (New C iss password) \<noteq> None) \<longleftrightarrow>
      ((\<exists>err. provisioner_of C iss password = Inl err) \<or> bootstrap_failure C iss password))
 \<and> (fst (New C iss password) = None \<longleftrightarrow> snd (New C iss password) \<noteq> None)
 \<and> (\<forall>err. provisioner_of C iss password = Inl err \<longrightarrow> New C iss password = (None, Some err))
 \<and> (\<forall>prov err. provisioner_of C iss password = Inr prov \<and> prov_Version C prov = Inl err \<longrightarrow>
      New C iss password =
        (Some \<lparr>name = Name iss @ ''.'' @ Namespace iss, provisioner = prov\<rparr>, None))"
proof (cases "provisioner_of C iss password")
  case (Inl err)
  then show ?thesis by (simp add: New_unfold bootstrap_failure_def)
next
  case prov: (Inr prov)
  let ?p = "\<lparr>name = Name iss @ ''.'' @ Namespace iss, provisioner = prov\<rparr>"
  show ?thesis
  proof (cases "prov_Version C prov")
    case (Inl err)
    with prov show ?thesis by (simp add: New_unfold bootstrap_failure_def)
  next
    case version: (Inr version)
    show ?thesis
    proof (cases "RequireClientAuthentication version")
      case False
      with prov version show ?thesis by (simp add: New_unfold bootstrap_failure_def)
    next
      case True
      obtain e p' where run: "createIdentityCertificate C ?p = (e, p')"
        by (cases "createIdentityCertificate C ?p")
      with createIdentityCertificate_fails[of C ?p]
      have "e \<noteq> None \<longleftrightarrow> exchange_fails C ?p" by simp
      with prov version True run show ?thesis
        by (cases e) (simp_all add: New_unfold bootstrap_failure_def)
    qed
  qed
qed

theorem New_failure_iff_witness:
  "New test_ca (test_issuer ''1234567'' ''https://ca'') [] =
     (None, Some (Error ''transport: bad key''))
 \<and> bootstrap_failure test_ca (test_issuer ''1234567'' ''https://ca'') []
 \<and> New test_ca (test_issuer ''12345'' ''https://ca'') [] =
     (Some \<lparr>name = ''issuer.ns'', provisioner = \<lparr>handle = 5, Client_transport = Transport 0\<rparr>\<rparr>,
      None)
 \<and> New test_ca (test_issuer ''1'' ''https://ca'') [] =
     (Some \<lparr>name = ''issuer.ns'', provisioner = \<lparr>handle = 1, Client_transport = Transport 1\<rparr>\<rparr>,
      None)
 \<and> New test_ca (test_issuer ''1'' []) [] = (None, Some (Error ''missing url''))"
proof -
  have p: "provisioner_of test_ca (test_issuer ''12345'' ''https://ca'') [] =
             Inr \<lparr>handle = 5, Client_transport = Transport 0\<rparr>"
    by (simp add: provisioner_of_def test_ca_def test_issuer_def)
  have v: "prov_Version test_ca \<lparr>handle = 5, Client_transport = Transport 0\<rparr> =
             Inl (Error ''version: connection refused'')"
    by (simp add: test_ca_def)
  have 1: "New test_ca (test_issuer ''12345'' ''https://ca'') [] =
     (Some \<lparr>name = ''issuer.ns'', provisioner = \<lparr>handle = 5, Client_transport = Transport 0\<rparr>\<rparr>,
      None)"
    using New_failure_iff[of test_ca "test_issuer ''12345'' ''https://ca''" "[]"] p v
    by (simp add: test_issuer_def)
  have 2: "New test_ca (test_issuer ''1234567'' ''https://ca'') [] =
     (None, Some (Error ''transport: bad key''))"
    "bootstrap_failure test_ca (test_issuer ''1234567'' ''https://ca'') []"
    "New test_ca (test_issuer ''1'' ''https://ca'') [] =
     (Some \<lparr>name = ''issuer.ns'', provisioner = \<lparr>handle = 1, Client_transport = Transport 1\<rparr>\<rparr>,
      None)"
    "New test_ca (test_issuer ''1'' []) [] = (None, Some (Error ''missing url''))"
    by (simp_all add: New_unfold bootstrap_failure_def exchange_fails_def provisioner_of_def
          createIdentityCertificate_def test_ca_def test_issuer_def test_csr_def)
  from 1 2 show ?thesis by simp
qed

subsection \<open>Claims about \<^verbatim>\<open>encodeX509\<close>\<close>

text \<open>
  C8 (encode/decode round trip). With a PEM library that keeps the round-trip
  contract \<open>pem_round_trip\<close>, \<^verbatim>\<open>encodeX509\<close> of a certificate returns no error, and
  decoding what it returns gives one block of type \<^verbatim>\<open>CERTIFICATE\<close> whose bytes are the
  raw bytes of the certificate, with no remaining bytes.
\<close>

theorem encodeX509_round_trip:
  assumes "pem_round_trip L"
  shows "\<exists>out block.
           encodeX509 L (Some cert) = Ok out
         \<and> pem_Decode L out = (Some block, [])
         \<and> Type block = ''CERTIFICATE''
         \<and> Bytes block = Raw cert"
proof -
  have "Headers (certificate_block cert) = []"
    and "pem_label (Type (certificate_block cert))"
    by (simp_all add: certificate_block_def pem_labels)
  with assms obtain out where
    enc: "pem_Encode L (certificate_block cert) = Inr out" and
    dec: "pem_Decode L out = (Some (certificate_block cert), [])"
    unfolding pem_round_trip_def by blast
  from enc have "encodeX509 L (Some cert) = Ok out"
    by (simp add: encodeX509_Ok)
  with dec show ?thesis
    by (simp add: certificate_block_def)
qed

theorem encodeX509_round_trip_witness:
  "pem_round_trip test_lib
 \<and> encodeX509 test_lib (Some \<lparr>Raw = [48, 130, 1]\<rparr>) = Ok (bytes_of_string test_pem)
 \<and> (\<exists>block. pem_Decode test_lib (bytes_of_string test_pem) = (Some block, [])
       \<and> Type block = ''CERTIFICATE'' \<and> Bytes block = [48, 130, 1])"
proof -
  have enc: "encodeX509 test_lib (Some \<lparr>Raw = [48, 130, 1]\<rparr>) = Ok (bytes_of_string test_pem)"
    by (simp add: encodeX509_def test_lib_simps pem_codec_Encode_def test_pem_encode)
  from encodeX509_round_trip[OF test_lib_round_trip, of "\<lparr>Raw = [48, 130, 1]\<rparr>"]
  have "\<exists>block. pem_Decode test_lib (bytes_of_string test_pem) = (Some block, [])
       \<and> Type block = ''CERTIFICATE'' \<and> Bytes block = [48, 130, 1]"
    unfolding enc by simp
  with enc test_lib_round_trip show ?thesis by blast
qed

subsection \<open>Claims about the registry\<close>

lemma stores_other: "n \<notin> fst ` set ops \<Longrightarrow> stores ops c n = c n"
  by (induction ops arbitrary: c) (auto simp: Store_def)

text \<open>
  C9 (registry round trip). After \<^verbatim>\<open>Store(n, p)\<close>, \<^verbatim>\<open>Load(n)\<close> returns \<open>p\<close> and true, also
  after further stores under other names. In a registry that started empty and saw
  no store under \<open>n\<close>, \<^verbatim>\<open>Load(n)\<close> returns nil and false.
\<close>

theorem registry_round_trip:
  "Load (Store n p c) n = (p, True)
 \<and> (n \<notin> fst ` set ops \<longrightarrow> Load (stores ops (Store n p c)) n = (p, True))
 \<and> (n \<notin> fst ` set ops \<longrightarrow> Load (stores ops collection_init) n = (None, False))"
proof (intro conjI impI)
  show "Load (Store n p c) n = (p, True)"
    by (simp add: Load_def Store_def)
next
  assume "n \<notin> fst ` set ops"
  then have "stores ops (Store n p c) n = Some (Step_pointer p)"
    by (simp add: stores_other Store_def)
  then show "Load (stores ops (Store n p c)) n = (p, True)"
    by (simp add: Load_def)
next
  assume "n \<notin> fst ` set ops"
  then have "stores ops collection_init n = None"
    by (simp add: stores_other collection_init_def)
  then show "Load (stores ops collection_init) n = (None, False)"
    by (simp add: Load_def)
qed

theorem registry_round_trip_witness:
  "Load (Store (test_name ''a'') (Some (test_step 1)) collection_init) (test_name ''a'') =
     (Some (test_step 1), True)
 \<and> Load (Store (test_name ''a'') None collection_init) (test_name ''a'') = (None, True)
 \<and> Load (stores [(test_name ''b'', Some (test_step 2))]
           (Store (test_name ''a'') (Some (test_step 1)) collection_init)) (test_name ''a'') =
     (Some (test_step 1), True)
 \<and> Load (stores [(test_name ''b'', Some (test_step 2))] collection_init) (test_name ''a'') =
     (None, False)"
proof -
  have n: "test_name ''a'' \<notin> fst ` set [(test_name ''b'', Some (test_step 2))]"
    by (simp add: test_name_def)
  from registry_round_trip[of "test_name ''a''" "Some (test_step 1)" collection_init
         "[(test_name ''b'', Some (test_step 2))]"] n
       registry_round_trip[of "test_name ''a''" None collection_init "[]"]
  show ?thesis by simp
qed

end
